theory Spec2Isabelle
  imports Complex_Main "HOL-Library.Log_Nat"
begin

section \<open>Exceptions\<close>

text \<open>
  The exception classes of \<^verbatim>\<open>uniswap/dto/exceptions.py\<close> that the modelled code raises,
  with their constructor arguments, and the Python built-in exceptions that the modelled
  arithmetic and the abstract base methods raise.
\<close>

datatype error =
    InvalidToken string
  | InsufficientBalance int int
  | UnsupportedUniSwapVersion int
  | ExplicitFeeTierRequred
  | InvalidFeeTier
  | InvalidTokenArgument
  | ZeroDivisionError
  | OverflowError
  | ValueError
  | TypeError
  | NotImplementedError
  | TransportError string

section \<open>Fee tiers (\<^verbatim>\<open>uniswap/dto/enums.py\<close>)\<close>

datatype FeeTier = TIER_100 | TIER_500 | TIER_3000 | TIER_10000

text \<open>The integer value of a member of the \<^verbatim>\<open>IntEnum\<close>.\<close>

fun tier_value :: "FeeTier \<Rightarrow> int" where
  "tier_value TIER_100 = 100"
| "tier_value TIER_500 = 500"
| "tier_value TIER_3000 = 3000"
| "tier_value TIER_10000 = 10000"

text \<open>
  \<^verbatim>\<open>FeeTier(value)\<close>: the enum lookup by value, which raises \<^verbatim>\<open>ValueError\<close> for an integer
  that is not the value of a member.
\<close>

definition FeeTier_of_value :: "int \<Rightarrow> error + FeeTier" where
  "FeeTier_of_value v =
     (if v = 100 then Inr TIER_100
      else if v = 500 then Inr TIER_500
      else if v = 3000 then Inr TIER_3000
      else if v = 10000 then Inr TIER_10000
      else Inl ValueError)"

text \<open>
  \<^verbatim>\<open>FeeTier.create(value, version)\<close>. The line \<^verbatim>\<open>value = value or FeeTier.TIER_3000\<close>
  replaces every falsy value, that is \<^verbatim>\<open>None\<close> and \<^verbatim>\<open>0\<close>, by 3000. The \<^verbatim>\<open>ValueError\<close>
  of the enum lookup is caught and raised again as \<^verbatim>\<open>InvalidFeeTier\<close>.
\<close>

definition create :: "int option \<Rightarrow> int \<Rightarrow> error + FeeTier" where
  "create value version =
     (if version = 3 \<and> value = None then Inl ExplicitFeeTierRequred
      else
        let value' = (case value of None \<Rightarrow> tier_value TIER_3000
                      | Some v \<Rightarrow> if v = 0 then tier_value TIER_3000 else v)
        in if version < 3 \<and> value' \<noteq> tier_value TIER_3000 then Inl InvalidFeeTier
           else (case FeeTier_of_value value' of
                   Inl _ \<Rightarrow> Inl InvalidFeeTier
                 | Inr t \<Rightarrow> Inr t))"

section \<open>Python numbers\<close>

text \<open>
  The price calculations of \<^verbatim>\<open>uniswap/protocol/v1.py\<close> divide with Python's \<^verbatim>\<open>/\<close>, which
  is true division: on two integers it returns a \<^verbatim>\<open>float\<close>, an IEEE 754 binary64 number,
  and every later operation that meets a float is a float operation. A Python number is
  therefore an unbounded integer or a float, and a finite float is the rational number it
  denotes. The sign of a zero is not recorded: the modelled code never observes it
  (division by either zero raises, comparison and \<^verbatim>\<open>int()\<close> ignore it).
\<close>

datatype pyfloat = Finite rat | PosInf | NegInf | NaN

datatype pynum = PInt int | PFloat pyfloat

text \<open>Sequencing of computations that may raise: the first exception ends the computation.\<close>

definition ebind :: "error + 'a \<Rightarrow> ('a \<Rightarrow> error + 'b) \<Rightarrow> error + 'b" where
  "ebind m f = (case m of Inl e \<Rightarrow> Inl e | Inr x \<Rightarrow> f x)"

subsection \<open>Rounding to binary64\<close>

text \<open>Round to the nearest integer, ties to the even one.\<close>

definition rne :: "rat \<Rightarrow> int" where
  "rne r = (let f = \<lfloor>r\<rfloor>; d = r - of_int f
            in if d < 1 / 2 then f
               else if 1 / 2 < d then f + 1
               else if even f then f else f + 1)"

text \<open>
  The binade of a positive rational \<open>q\<close>: the integer \<open>p\<close> with \<open>2 powi p \<le> q < 2 powi (p + 1)\<close>,
  found from the bit lengths of numerator and denominator.
\<close>

definition binade :: "rat \<Rightarrow> int" where
  "binade q = (case quotient_of q of (a, b) \<Rightarrow>
                 let k = bitlen a - bitlen b
                 in if 2 powi k \<le> q then k else k - 1)"

text \<open>
  A positive rational rounded to 53 significant bits, the unit in the last place never
  below \<open>2 powi (- 1074)\<close> (the subnormal range), with the exponent unbounded above.
\<close>

definition round_pos :: "rat \<Rightarrow> rat" where
  "round_pos q = (let e = max (binade q - 52) (- 1074)
                  in of_int (rne (q / 2 powi e)) * 2 powi e)"

definition round_rat :: "rat \<Rightarrow> rat" where
  "round_rat q = (if q = 0 then 0 else if 0 < q then round_pos q else - round_pos (- q))"

text \<open>The largest finite binary64 number.\<close>

definition max_double :: rat where
  "max_double = (2 ^ 53 - 1) * 2 ^ 971"

text \<open>
  The binary64 result of an operation whose exact result is \<open>q\<close>: round to nearest, ties to
  even, and an infinity when the rounded value exceeds the largest finite number.
\<close>

definition to_double :: "rat \<Rightarrow> pyfloat" where
  "to_double q = (let r = round_rat q
                  in if max_double < r then PosInf
                     else if r < - max_double then NegInf
                     else Finite r)"

subsection \<open>Float operations\<close>

fun fneg :: "pyfloat \<Rightarrow> pyfloat" where
  "fneg (Finite x) = Finite (- x)"
| "fneg PosInf = NegInf"
| "fneg NegInf = PosInf"
| "fneg NaN = NaN"

fun fadd :: "pyfloat \<Rightarrow> pyfloat \<Rightarrow> pyfloat" where
  "fadd (Finite x) (Finite y) = to_double (x + y)"
| "fadd NaN _ = NaN"
| "fadd _ NaN = NaN"
| "fadd PosInf NegInf = NaN"
| "fadd NegInf PosInf = NaN"
| "fadd PosInf _ = PosInf"
| "fadd NegInf _ = NegInf"
| "fadd (Finite x) PosInf = PosInf"
| "fadd (Finite x) NegInf = NegInf"

definition fsub :: "pyfloat \<Rightarrow> pyfloat \<Rightarrow> pyfloat" where
  "fsub a b = fadd a (fneg b)"

fun negative :: "pyfloat \<Rightarrow> bool" where
  "negative (Finite x) = (x < 0)"
| "negative NegInf = True"
| "negative PosInf = False"
| "negative NaN = False"

fun fmul :: "pyfloat \<Rightarrow> pyfloat \<Rightarrow> pyfloat" where
  "fmul (Finite x) (Finite y) = to_double (x * y)"
| "fmul NaN _ = NaN"
| "fmul _ NaN = NaN"
| "fmul a b =
     (if a = Finite 0 \<or> b = Finite 0 then NaN
      else if negative a = negative b then PosInf else NegInf)"

text \<open>
  Float division as Python performs it: a zero divisor raises \<^verbatim>\<open>ZeroDivisionError\<close> whatever
  the dividend is, and an overflowing quotient is an infinity.
\<close>

fun fdiv :: "pyfloat \<Rightarrow> pyfloat \<Rightarrow> error + pyfloat" where
  "fdiv a (Finite y) =
     (if y = 0 then Inl ZeroDivisionError
      else case a of
             Finite x \<Rightarrow> Inr (to_double (x / y))
           | NaN \<Rightarrow> Inr NaN
           | _ \<Rightarrow> Inr (if negative a = (y < 0) then PosInf else NegInf))"
| "fdiv a NaN = Inr NaN"
| "fdiv (Finite x) _ = Inr (Finite 0)"
| "fdiv _ _ = Inr NaN"

subsection \<open>Arithmetic on Python numbers\<close>

text \<open>
  The conversion of an integer operand of a mixed operation: correctly rounded, and
  \<^verbatim>\<open>OverflowError\<close> for an integer beyond the float range.
\<close>

definition float_of_int :: "int \<Rightarrow> error + pyfloat" where
  "float_of_int n = (case to_double (of_int n) of
                       Finite r \<Rightarrow> Inr (Finite r)
                     | _ \<Rightarrow> Inl OverflowError)"

fun as_float :: "pynum \<Rightarrow> error + pyfloat" where
  "as_float (PInt n) = float_of_int n"
| "as_float (PFloat f) = Inr f"

fun py_add :: "pynum \<Rightarrow> pynum \<Rightarrow> error + pynum" where
  "py_add (PInt a) (PInt b) = Inr (PInt (a + b))"
| "py_add x y = ebind (as_float x) (\<lambda>a. ebind (as_float y) (\<lambda>b. Inr (PFloat (fadd a b))))"

fun py_sub :: "pynum \<Rightarrow> pynum \<Rightarrow> error + pynum" where
  "py_sub (PInt a) (PInt b) = Inr (PInt (a - b))"
| "py_sub x y = ebind (as_float x) (\<lambda>a. ebind (as_float y) (\<lambda>b. Inr (PFloat (fsub a b))))"

fun py_mul :: "pynum \<Rightarrow> pynum \<Rightarrow> error + pynum" where
  "py_mul (PInt a) (PInt b) = Inr (PInt (a * b))"
| "py_mul x y = ebind (as_float x) (\<lambda>a. ebind (as_float y) (\<lambda>b. Inr (PFloat (fmul a b))))"

text \<open>
  \<^verbatim>\<open>x / y\<close>. On two integers the quotient is rounded once, from the exact rational, and a
  quotient beyond the float range raises \<^verbatim>\<open>OverflowError\<close>.
\<close>

fun py_truediv :: "pynum \<Rightarrow> pynum \<Rightarrow> error + pynum" where
  "py_truediv (PInt a) (PInt b) =
     (if b = 0 then Inl ZeroDivisionError
      else case to_double (of_int a / of_int b) of
             Finite r \<Rightarrow> Inr (PFloat (Finite r))
           | _ \<Rightarrow> Inl OverflowError)"
| "py_truediv x y =
     ebind (as_float x) (\<lambda>a. ebind (as_float y) (\<lambda>b. ebind (fdiv a b) (\<lambda>r. Inr (PFloat r))))"

text \<open>\<^verbatim>\<open>int(x)\<close>: truncation toward zero; an infinity or a NaN cannot be converted.\<close>

fun py_int :: "pynum \<Rightarrow> error + int" where
  "py_int (PInt n) = Inr n"
| "py_int (PFloat (Finite x)) = Inr (if 0 \<le> x then \<lfloor>x\<rfloor> else \<lceil>x\<rceil>)"
| "py_int (PFloat NaN) = Inl ValueError"
| "py_int (PFloat _) = Inl OverflowError"

text \<open>The float literals of the source.\<close>

definition float_1_2 :: pyfloat where
  "float_1_2 = to_double (12 / 10)"

definition float_0_01 :: pyfloat where
  "float_0_01 = to_double (1 / 100)"


section \<open>The chain as the client reads it\<close>

text \<open>
  Token and account addresses. \<^verbatim>\<open>ETH_ADDRESS\<close> is the constant of
  \<^verbatim>\<open>uniswap/dto/constants.py\<close>, the zero address that \<^verbatim>\<open>uniswap/tokens.py\<close> lists for ETH.
\<close>

type_synonym address = string

definition ETH_ADDRESS :: address where
  "ETH_ADDRESS = ''0x0000000000000000000000000000000000000000''"

text \<open>
  Every read of the node is a field of the record: the reserves of a token's exchange
  (\<^verbatim>\<open>UniswapV1Utils.get_ex_eth_balance\<close>, \<^verbatim>\<open>get_ex_token_balance\<close>), the factory's
  \<^verbatim>\<open>getExchange\<close>, the four price getters of an exchange contract, the balances of the
  wallet and the clock. The reads are not cached, so a function that reads twice reads the
  same record twice.
\<close>

record chain =
  get_ex_eth_balance :: "address \<Rightarrow> int"
  get_ex_token_balance :: "address \<Rightarrow> int"
  getExchange :: "address \<Rightarrow> address option"
  getEthToTokenInputPrice :: "address \<Rightarrow> int \<Rightarrow> int"
  getTokenToEthInputPrice :: "address \<Rightarrow> int \<Rightarrow> int"
  getEthToTokenOutputPrice :: "address \<Rightarrow> int \<Rightarrow> int"
  getTokenToEthOutputPrice :: "address \<Rightarrow> int \<Rightarrow> int"
  get_eth_balance :: int
  erc20_balance :: "address \<Rightarrow> int"
  time :: int

section \<open>Uniswap V1 price calculation (\<^verbatim>\<open>uniswap/protocol/v1.py\<close>)\<close>

text \<open>
  The exact-output cost of one leg, as \<^verbatim>\<open>_token_to_eth_swap_output\<close> computes its local
  \<^verbatim>\<open>inputAmount\<close>:
  \<^verbatim>\<open>
    numerator = outputAmount * inputReserve * 1000
    denominator = (outputReserve - outputAmount) * 997
    inputAmount = numerator / denominator + 1
  \<close>
  The quotient is kept apart from the final adjustment by one.
\<close>

definition output_quotient :: "pynum \<Rightarrow> int \<Rightarrow> int \<Rightarrow> error + pynum" where
  "output_quotient outputAmount inputReserve outputReserve =
     ebind (py_mul outputAmount (PInt inputReserve)) (\<lambda>t.
     ebind (py_mul t (PInt 1000)) (\<lambda>numerator.
     ebind (py_sub (PInt outputReserve) outputAmount) (\<lambda>d.
     ebind (py_mul d (PInt 997)) (\<lambda>denominator.
     py_truediv numerator denominator))))"

definition exact_output_amount :: "pynum \<Rightarrow> int \<Rightarrow> int \<Rightarrow> error + pynum" where
  "exact_output_amount outputAmount inputReserve outputReserve =
     ebind (output_quotient outputAmount inputReserve outputReserve) (\<lambda>q.
     py_add q (PInt 1))"

text \<open>
  The exact-input proceeds of one leg, as \<^verbatim>\<open>_calculate_max_output_token\<close> computes its local
  \<^verbatim>\<open>outputAmountA\<close>:
  \<^verbatim>\<open>
    numeratorA = inputAmountA * outputReserveA * 997
    denominatorA = inputReserveA * 1000 + inputAmountA * 997
    outputAmountA = numeratorA / denominatorA
  \<close>
\<close>

definition exact_input_amount :: "pynum \<Rightarrow> int \<Rightarrow> int \<Rightarrow> error + pynum" where
  "exact_input_amount inputAmount inputReserve outputReserve =
     ebind (py_mul inputAmount (PInt outputReserve)) (\<lambda>t.
     ebind (py_mul t (PInt 997)) (\<lambda>numerator.
     ebind (py_mul (PInt inputReserve) (PInt 1000)) (\<lambda>r.
     ebind (py_mul inputAmount (PInt 997)) (\<lambda>a.
     ebind (py_add r a) (\<lambda>denominator.
     py_truediv numerator denominator)))))"

text \<open>
  \<^verbatim>\<open>_calculate_max_input_token(input_token, qty, output_token)\<close>, statement by statement.
  The first leg buys \<^verbatim>\<open>qty\<close> of the output token with ETH, the second buys that ETH with
  the input token; the pair returned is \<^verbatim>\<open>(int(input_amount_a), int(1.2 * input_amount_b))\<close>.
\<close>

definition calculate_max_input_token :: "chain \<Rightarrow> address \<Rightarrow> int \<Rightarrow> address \<Rightarrow> error + int \<times> int" where
  "calculate_max_input_token c input_token qty output_token =
     (let output_amount_b = PInt qty;
          input_reserve_b = PInt (get_ex_eth_balance c output_token);
          output_reserve_b = PInt (get_ex_token_balance c output_token)
      in ebind (py_mul output_amount_b input_reserve_b) (\<lambda>tb.
         ebind (py_mul tb (PInt 1000)) (\<lambda>numerator_b.
         ebind (py_sub output_reserve_b output_amount_b) (\<lambda>db.
         ebind (py_mul db (PInt 997)) (\<lambda>denominator_b.
         ebind (py_truediv numerator_b denominator_b) (\<lambda>qb.
         ebind (py_add qb (PInt 1)) (\<lambda>input_amount_b.
         let output_amount_a = input_amount_b;
             input_reserve_a = PInt (get_ex_token_balance c input_token);
             output_reserve_a = PInt (get_ex_eth_balance c input_token)
         in ebind (py_mul output_amount_a input_reserve_a) (\<lambda>ta.
            ebind (py_mul ta (PInt 1000)) (\<lambda>numerator_a.
            ebind (py_sub output_reserve_a output_amount_a) (\<lambda>da.
            ebind (py_mul da (PInt 997)) (\<lambda>denominator_a.
            ebind (py_truediv numerator_a denominator_a) (\<lambda>qa.
            ebind (py_sub qa (PInt 1)) (\<lambda>input_amount_a.
            ebind (py_int input_amount_a) (\<lambda>r1.
            ebind (py_mul (PFloat float_1_2) input_amount_b) (\<lambda>m.
            ebind (py_int m) (\<lambda>r2.
            Inr (r1, r2)))))))))))))))))"

text \<open>
  \<^verbatim>\<open>_calculate_max_output_token(output_token, qty, input_token)\<close>, statement by statement.
  Both legs read the token reserve as input reserve and the ETH reserve as output reserve;
  the pair returned is \<^verbatim>\<open>(int(outputAmountB), int(1.2 * outputAmountA))\<close>.
\<close>

definition calculate_max_output_token :: "chain \<Rightarrow> address \<Rightarrow> int \<Rightarrow> address \<Rightarrow> error + int \<times> int" where
  "calculate_max_output_token c output_token qty input_token =
     (let inputAmountA = PInt qty;
          inputReserveA = PInt (get_ex_token_balance c input_token);
          outputReserveA = PInt (get_ex_eth_balance c input_token)
      in ebind (py_mul inputAmountA outputReserveA) (\<lambda>tA.
         ebind (py_mul tA (PInt 997)) (\<lambda>numeratorA.
         ebind (py_mul inputReserveA (PInt 1000)) (\<lambda>rA.
         ebind (py_mul inputAmountA (PInt 997)) (\<lambda>aA.
         ebind (py_add rA aA) (\<lambda>denominatorA.
         ebind (py_truediv numeratorA denominatorA) (\<lambda>outputAmountA.
         let inputAmountB = outputAmountA;
             inputReserveB = PInt (get_ex_token_balance c output_token);
             outputReserveB = PInt (get_ex_eth_balance c output_token)
         in ebind (py_mul inputAmountB outputReserveB) (\<lambda>tB.
            ebind (py_mul tB (PInt 997)) (\<lambda>numeratorB.
            ebind (py_mul inputReserveB (PInt 1000)) (\<lambda>rB.
            ebind (py_mul inputAmountB (PInt 997)) (\<lambda>aB.
            ebind (py_add rB aB) (\<lambda>denominatorB.
            ebind (py_truediv numeratorB denominatorB) (\<lambda>outputAmountB.
            ebind (py_int outputAmountB) (\<lambda>r1.
            ebind (py_mul (PFloat float_1_2) outputAmountA) (\<lambda>m.
            ebind (py_int m) (\<lambda>r2.
            Inr (r1, r2)))))))))))))))))"

section \<open>The protocol base class (\<^verbatim>\<open>uniswap/protocol/base.py\<close>)\<close>

text \<open>
  A swap method ends in \<^verbatim>\<open>_build_and_send_tx(function, tx_params)\<close>, which signs and submits.
  The model stops at the instruction handed over: the exchange contract, the function
  called on it, its arguments in order, and the ETH value sent along.
\<close>

datatype param = PNum int | PAddr address

record instruction =
  contract :: address
  function_name :: string
  func_params :: "param list"
  tx_value :: int

text \<open>
  \<^verbatim>\<open>BaseUniswap\<close> leaves the twelve pricing and swap methods to its subclasses (its own
  bodies raise \<^verbatim>\<open>NotImplementedError\<close>). A client is the record of what a subclass supplies,
  together with the attributes \<^verbatim>\<open>_version\<close> (the field \<open>client_version\<close>), \<^verbatim>\<open>default_slippage\<close> and \<^verbatim>\<open>address\<close>.
  The field \<open>check_approval\<close> is the step that the decorator of that name, defined in
  \<^verbatim>\<open>uniswap/decorators.py\<close>, runs before \<^verbatim>\<open>make_trade\<close> and \<^verbatim>\<open>make_trade_output\<close>: it
  answers \<open>None\<close> when it passes and the exception otherwise.
\<close>

record client =
  client_version :: int
  default_slippage :: pynum
  wallet :: address
  check_approval :: "chain \<Rightarrow> address \<Rightarrow> address \<Rightarrow> error option"
  get_eth_token_input_price :: "chain \<Rightarrow> address \<Rightarrow> int \<Rightarrow> FeeTier \<Rightarrow> error + int"
  get_token_eth_input_price :: "chain \<Rightarrow> address \<Rightarrow> int \<Rightarrow> FeeTier \<Rightarrow> error + int"
  get_token_token_input_price ::
    "chain \<Rightarrow> address \<Rightarrow> address \<Rightarrow> int \<Rightarrow> FeeTier \<Rightarrow> address list option \<Rightarrow> error + int"
  get_eth_token_output_price :: "chain \<Rightarrow> address \<Rightarrow> int \<Rightarrow> FeeTier \<Rightarrow> error + int"
  get_token_eth_output_price :: "chain \<Rightarrow> address \<Rightarrow> int \<Rightarrow> FeeTier \<Rightarrow> error + int"
  get_token_token_output_price ::
    "chain \<Rightarrow> address \<Rightarrow> address \<Rightarrow> int \<Rightarrow> FeeTier \<Rightarrow> address list option \<Rightarrow> error + int"
  eth_to_token_swap_input ::
    "chain \<Rightarrow> address \<Rightarrow> int \<Rightarrow> address option \<Rightarrow> FeeTier \<Rightarrow> pynum \<Rightarrow> bool \<Rightarrow> error + instruction"
  token_to_eth_swap_input ::
    "chain \<Rightarrow> address \<Rightarrow> int \<Rightarrow> address option \<Rightarrow> FeeTier \<Rightarrow> pynum \<Rightarrow> bool \<Rightarrow> error + instruction"
  token_to_token_swap_input ::
    "chain \<Rightarrow> address \<Rightarrow> address \<Rightarrow> int \<Rightarrow> address option \<Rightarrow> FeeTier \<Rightarrow> pynum \<Rightarrow> bool
      \<Rightarrow> error + instruction"
  eth_to_token_swap_output ::
    "chain \<Rightarrow> address \<Rightarrow> int \<Rightarrow> address option \<Rightarrow> FeeTier \<Rightarrow> pynum \<Rightarrow> error + instruction"
  token_to_eth_swap_output ::
    "chain \<Rightarrow> address \<Rightarrow> int \<Rightarrow> address option \<Rightarrow> FeeTier \<Rightarrow> pynum \<Rightarrow> error + instruction"
  token_to_token_swap_output ::
    "chain \<Rightarrow> address \<Rightarrow> address \<Rightarrow> int \<Rightarrow> address option \<Rightarrow> FeeTier \<Rightarrow> pynum
      \<Rightarrow> error + instruction"

text \<open>
  Modelled from the spec: \<^verbatim>\<open>is_same_address\<close> of \<^verbatim>\<open>uniswap/util.py\<close>, which is not part of the
  sources at hand. The dispatcher uses it to classify which side is the native asset;
  addresses are compared for equality.
\<close>

definition is_same_address :: "address \<Rightarrow> address \<Rightarrow> bool" where
  "is_same_address a1 a2 = (a1 = a2)"

subsection \<open>Prices\<close>

definition get_price_input ::
  "client \<Rightarrow> chain \<Rightarrow> address \<Rightarrow> address \<Rightarrow> int \<Rightarrow> int option \<Rightarrow> address list option \<Rightarrow> error + int" where
  "get_price_input self c token0 token1 qty fee route =
     ebind (create fee (client_version self)) (\<lambda>fee.
       if token0 = ETH_ADDRESS then get_eth_token_input_price self c token1 qty fee
       else if token1 = ETH_ADDRESS then get_token_eth_input_price self c token0 qty fee
       else get_token_token_input_price self c token0 token1 qty fee route)"

definition get_price_output ::
  "client \<Rightarrow> chain \<Rightarrow> address \<Rightarrow> address \<Rightarrow> int \<Rightarrow> int option \<Rightarrow> address list option \<Rightarrow> error + int" where
  "get_price_output self c token0 token1 qty fee route =
     ebind (create fee (client_version self)) (\<lambda>fee.
       if is_same_address token0 ETH_ADDRESS then get_eth_token_output_price self c token1 qty fee
       else if is_same_address token1 ETH_ADDRESS then get_token_eth_output_price self c token0 qty fee
       else get_token_token_output_price self c token0 token1 qty fee route)"

subsection \<open>Wallet balance\<close>

text \<open>
  \<^verbatim>\<open>get_token_balance\<close>: the ETH pseudo-address reads the ETH balance. The address check
  \<^verbatim>\<open>_validate_address\<close> lives in \<^verbatim>\<open>uniswap/util.py\<close>; the addresses of the model are
  well-formed.
\<close>

definition get_token_balance :: "chain \<Rightarrow> address \<Rightarrow> int" where
  "get_token_balance c token =
     (if token = ETH_ADDRESS then get_eth_balance c else erc20_balance c token)"

subsection \<open>Trades with a balance check\<close>

text \<open>
  The limit of an exact-output trade, \<^verbatim>\<open>int((1 + slippage) * cost)\<close>, as the three
  exact-output wrappers compute it.
\<close>

definition amount_in_max :: "pynum \<Rightarrow> int \<Rightarrow> error + int" where
  "amount_in_max slippage cost =
     ebind (py_add (PInt 1) slippage) (\<lambda>s.
     ebind (py_mul s (PInt cost)) py_int)"

definition wrap_eth_to_token_swap_input ::
  "client \<Rightarrow> chain \<Rightarrow> address \<Rightarrow> int \<Rightarrow> address option \<Rightarrow> FeeTier \<Rightarrow> pynum \<Rightarrow> bool \<Rightarrow> error + instruction" where
  "wrap_eth_to_token_swap_input self c output_token qty recipient fee slippage fee_on_transfer =
     (if output_token = ETH_ADDRESS then Inl InvalidTokenArgument
      else let eth_balance = get_eth_balance c
           in if qty > eth_balance then Inl (InsufficientBalance eth_balance qty)
              else eth_to_token_swap_input self c output_token qty recipient fee slippage fee_on_transfer)"

definition wrap_token_to_eth_swap_input ::
  "client \<Rightarrow> chain \<Rightarrow> address \<Rightarrow> int \<Rightarrow> address option \<Rightarrow> FeeTier \<Rightarrow> pynum \<Rightarrow> bool \<Rightarrow> error + instruction" where
  "wrap_token_to_eth_swap_input self c input_token qty recipient fee slippage fee_on_transfer =
     (if input_token = ETH_ADDRESS then Inl InvalidTokenArgument
      else let input_balance = get_token_balance c input_token
           in if qty > input_balance then Inl (InsufficientBalance input_balance qty)
              else token_to_eth_swap_input self c input_token qty recipient fee slippage fee_on_transfer)"

definition wrap_token_to_token_swap_input ::
  "client \<Rightarrow> chain \<Rightarrow> address \<Rightarrow> address \<Rightarrow> int \<Rightarrow> address option \<Rightarrow> FeeTier \<Rightarrow> pynum \<Rightarrow> bool
     \<Rightarrow> error + instruction" where
  "wrap_token_to_token_swap_input self c input_token output_token qty recipient fee slippage fee_on_transfer =
     (let input_balance = get_token_balance c input_token
      in if qty > input_balance then Inl (InsufficientBalance input_balance qty)
         else if ETH_ADDRESS = input_token \<or> ETH_ADDRESS = output_token then Inl InvalidTokenArgument
         else let recipient' = (case recipient of None \<Rightarrow> wallet self
                                | Some r \<Rightarrow> if r = [] then wallet self else r)
              in token_to_token_swap_input self c input_token output_token qty (Some recipient') fee
                   slippage fee_on_transfer)"

definition wrap_eth_to_token_swap_output ::
  "client \<Rightarrow> chain \<Rightarrow> address \<Rightarrow> int \<Rightarrow> address option \<Rightarrow> FeeTier \<Rightarrow> pynum \<Rightarrow> error + instruction" where
  "wrap_eth_to_token_swap_output self c output_token qty recipient fee slippage =
     (if output_token = ETH_ADDRESS then Inl InvalidTokenArgument
      else let eth_balance = get_eth_balance c
           in ebind (get_eth_token_output_price self c output_token qty fee) (\<lambda>cost.
              ebind (amount_in_max slippage cost) (\<lambda>amount_in_max.
              if amount_in_max > eth_balance then Inl (InsufficientBalance eth_balance amount_in_max)
              else eth_to_token_swap_output self c output_token qty recipient fee slippage)))"

definition wrap_token_to_eth_swap_output ::
  "client \<Rightarrow> chain \<Rightarrow> address \<Rightarrow> int \<Rightarrow> address option \<Rightarrow> FeeTier \<Rightarrow> pynum \<Rightarrow> error + instruction" where
  "wrap_token_to_eth_swap_output self c input_token qty recipient fee slippage =
     (if input_token = ETH_ADDRESS then Inl InvalidTokenArgument
      else let input_balance = get_token_balance c input_token
           in ebind (get_token_eth_output_price self c input_token qty fee) (\<lambda>cost.
              ebind (amount_in_max slippage cost) (\<lambda>amount_in_max.
              if amount_in_max > input_balance then Inl (InsufficientBalance input_balance amount_in_max)
              else token_to_eth_swap_output self c input_token qty recipient fee slippage)))"

definition wrap_token_to_token_swap_output ::
  "client \<Rightarrow> chain \<Rightarrow> address \<Rightarrow> address \<Rightarrow> int \<Rightarrow> address option \<Rightarrow> FeeTier \<Rightarrow> pynum \<Rightarrow> error + instruction" where
  "wrap_token_to_token_swap_output self c input_token output_token qty recipient fee slippage =
     (if ETH_ADDRESS = input_token \<or> ETH_ADDRESS = output_token then Inl InvalidTokenArgument
      else let input_balance = get_token_balance c input_token
           in ebind (get_token_token_output_price self c input_token output_token qty fee None) (\<lambda>cost.
              ebind (amount_in_max slippage cost) (\<lambda>amount_in_max.
              if amount_in_max > input_balance then Inl (InsufficientBalance input_balance amount_in_max)
              else token_to_token_swap_output self c input_token output_token qty recipient fee slippage)))"

subsection \<open>The two trade operations\<close>

text \<open>
  \<^verbatim>\<open>make_trade\<close>. After the approval step of the decorator, the quantity must be an \<^verbatim>\<open>int\<close>,
  the fee tier is resolved, then the two tokens are compared, then the trade is routed.
\<close>

definition make_trade ::
  "client \<Rightarrow> chain \<Rightarrow> address \<Rightarrow> address \<Rightarrow> pynum \<Rightarrow> address option \<Rightarrow> int option \<Rightarrow> pynum option \<Rightarrow> bool
     \<Rightarrow> error + instruction" where
  "make_trade self c input_token output_token qty recipient fee slippage fee_on_transfer =
     (case check_approval self c input_token output_token of
        Some e \<Rightarrow> Inl e
      | None \<Rightarrow>
         (case qty of
            PFloat _ \<Rightarrow> Inl TypeError
          | PInt qty \<Rightarrow>
             ebind (create fee (client_version self)) (\<lambda>fee.
               let slippage = (case slippage of None \<Rightarrow> default_slippage self | Some s \<Rightarrow> s)
               in if input_token = output_token then Inl InvalidTokenArgument
                  else if input_token = ETH_ADDRESS then
                    wrap_eth_to_token_swap_input self c output_token qty recipient fee slippage fee_on_transfer
                  else if output_token = ETH_ADDRESS then
                    wrap_token_to_eth_swap_input self c input_token qty recipient fee slippage fee_on_transfer
                  else
                    wrap_token_to_token_swap_input self c input_token output_token qty recipient fee
                      slippage fee_on_transfer)))"

text \<open>
  \<^verbatim>\<open>make_trade_output\<close>. The ETH branch checks the balance against the quoted price before
  it calls the wrapper, which checks again against the limit.
\<close>

definition make_trade_output ::
  "client \<Rightarrow> chain \<Rightarrow> address \<Rightarrow> address \<Rightarrow> int \<Rightarrow> address option \<Rightarrow> int option \<Rightarrow> pynum option
     \<Rightarrow> error + instruction" where
  "make_trade_output self c input_token output_token qty recipient fee slippage =
     (case check_approval self c input_token output_token of
        Some e \<Rightarrow> Inl e
      | None \<Rightarrow>
         ebind (create fee (client_version self)) (\<lambda>fee.
           let slippage = (case slippage of None \<Rightarrow> default_slippage self | Some s \<Rightarrow> s)
           in if input_token = output_token then Inl InvalidTokenArgument
              else if input_token = ETH_ADDRESS then
                let balance = get_eth_balance c
                in ebind (get_eth_token_output_price self c output_token qty fee) (\<lambda>need.
                   if balance < need then Inl (InsufficientBalance balance need)
                   else wrap_eth_to_token_swap_output self c output_token qty recipient fee slippage)
              else if output_token = ETH_ADDRESS then
                wrap_token_to_eth_swap_output self c input_token qty recipient fee slippage
              else
                wrap_token_to_token_swap_output self c input_token output_token qty recipient fee slippage))"

section \<open>The version 1 client (\<^verbatim>\<open>UniswapV1\<close> in \<^verbatim>\<open>uniswap/protocol/v1.py\<close>)\<close>

text \<open>
  \<^verbatim>\<open>UniswapV1Utils.exchange(token_addr)\<close>: the exchange contract of a token, looked up at
  the factory; \<^verbatim>\<open>InvalidToken\<close> when there is none.
\<close>

definition exchange :: "chain \<Rightarrow> address \<Rightarrow> error + address" where
  "exchange c token_addr =
     (case (if token_addr \<noteq> [] then getExchange c token_addr else None) of
        None \<Rightarrow> Inl (InvalidToken token_addr)
      | Some ex_addr \<Rightarrow> Inr ex_addr)"

text \<open>\<^verbatim>\<open>_deadline()\<close>: ten minutes from now.\<close>

definition deadline :: "chain \<Rightarrow> int" where
  "deadline c = time c + 10 * 60"

text \<open>The test \<^verbatim>\<open>if not recipient\<close>: no recipient, or an empty one.\<close>

definition no_recipient :: "address option \<Rightarrow> bool" where
  "no_recipient recipient = (case recipient of None \<Rightarrow> True | Some r \<Rightarrow> r = [])"

definition V1_get_eth_token_input_price :: "chain \<Rightarrow> address \<Rightarrow> int \<Rightarrow> FeeTier \<Rightarrow> error + int" where
  "V1_get_eth_token_input_price c token qty fee =
     ebind (exchange c token) (\<lambda>ex. Inr (getEthToTokenInputPrice c ex qty))"

definition V1_get_token_eth_input_price :: "chain \<Rightarrow> address \<Rightarrow> int \<Rightarrow> FeeTier \<Rightarrow> error + int" where
  "V1_get_token_eth_input_price c token qty fee =
     ebind (exchange c token) (\<lambda>ex. Inr (getTokenToEthInputPrice c ex qty))"

definition V1_get_eth_token_output_price :: "chain \<Rightarrow> address \<Rightarrow> int \<Rightarrow> FeeTier \<Rightarrow> error + int" where
  "V1_get_eth_token_output_price c token qty fee =
     ebind (exchange c token) (\<lambda>ex. Inr (getEthToTokenOutputPrice c ex qty))"

definition V1_get_token_eth_output_price :: "chain \<Rightarrow> address \<Rightarrow> int \<Rightarrow> FeeTier \<Rightarrow> error + int" where
  "V1_get_token_eth_output_price c token qty fee =
     ebind (exchange c token) (\<lambda>ex. Inr (getTokenToEthOutputPrice c ex qty))"

definition V1_get_token_token_input_price ::
  "int \<Rightarrow> chain \<Rightarrow> address \<Rightarrow> address \<Rightarrow> int \<Rightarrow> FeeTier \<Rightarrow> address list option \<Rightarrow> error + int" where
  "V1_get_token_token_input_price v c token0 token1 qty fee route = Inl (UnsupportedUniSwapVersion v)"

definition V1_get_token_token_output_price ::
  "int \<Rightarrow> chain \<Rightarrow> address \<Rightarrow> address \<Rightarrow> int \<Rightarrow> FeeTier \<Rightarrow> address list option \<Rightarrow> error + int" where
  "V1_get_token_token_output_price v c token0 token1 qty fee route = Inl (UnsupportedUniSwapVersion v)"

definition V1_eth_to_token_swap_input ::
  "chain \<Rightarrow> address \<Rightarrow> int \<Rightarrow> address option \<Rightarrow> FeeTier \<Rightarrow> pynum \<Rightarrow> bool \<Rightarrow> error + instruction" where
  "V1_eth_to_token_swap_input c output_token qty recipient fee slippage fee_on_transfer =
     ebind (exchange c output_token) (\<lambda>ex.
       let params = [PNum qty, PNum (deadline c)]
       in if no_recipient recipient then
            Inr \<lparr>contract = ex, function_name = ''ethToTokenSwapInput'',
                 func_params = params, tx_value = qty\<rparr>
          else
            Inr \<lparr>contract = ex, function_name = ''ethToTokenTransferInput'',
                 func_params = params @ [PAddr (the recipient)], tx_value = qty\<rparr>)"

definition V1_token_to_eth_swap_input ::
  "chain \<Rightarrow> address \<Rightarrow> int \<Rightarrow> address option \<Rightarrow> FeeTier \<Rightarrow> pynum \<Rightarrow> bool \<Rightarrow> error + instruction" where
  "V1_token_to_eth_swap_input c input_token qty recipient fee slippage fee_on_transfer =
     ebind (exchange c input_token) (\<lambda>ex.
       let params = [PNum qty, PNum 1, PNum (deadline c)]
       in if no_recipient recipient then
            Inr \<lparr>contract = ex, function_name = ''tokenToEthSwapInput'',
                 func_params = params, tx_value = 0\<rparr>
          else
            Inr \<lparr>contract = ex, function_name = ''tokenToEthTransferInput'',
                 func_params = params @ [PAddr (the recipient)], tx_value = 0\<rparr>)"

text \<open>
  \<^verbatim>\<open>_token_to_token_swap_input\<close> calls \<^verbatim>\<open>_calculate_max_output_token(input_token, qty,
  output_token)\<close>, the tokens in this order.
\<close>

definition V1_token_to_token_swap_input ::
  "chain \<Rightarrow> address \<Rightarrow> address \<Rightarrow> int \<Rightarrow> address option \<Rightarrow> FeeTier \<Rightarrow> pynum \<Rightarrow> bool
     \<Rightarrow> error + instruction" where
  "V1_token_to_token_swap_input c input_token output_token qty recipient fee slippage fee_on_transfer =
     ebind (exchange c input_token) (\<lambda>ex.
     ebind (calculate_max_output_token c input_token qty output_token) (\<lambda>(min_tokens_bought, min_eth_bought).
       let params = [PNum qty, PNum min_tokens_bought, PNum min_eth_bought, PNum (deadline c)]
       in if no_recipient recipient then
            Inr \<lparr>contract = ex, function_name = ''tokenToTokenSwapInput'',
                 func_params = params @ [PAddr output_token], tx_value = 0\<rparr>
          else
            Inr \<lparr>contract = ex, function_name = ''tokenToTokenTransferInput'',
                 func_params = params @ [PAddr (the recipient), PAddr output_token], tx_value = 0\<rparr>))"

definition V1_eth_to_token_swap_output ::
  "chain \<Rightarrow> address \<Rightarrow> int \<Rightarrow> address option \<Rightarrow> FeeTier \<Rightarrow> pynum \<Rightarrow> error + instruction" where
  "V1_eth_to_token_swap_output c output_token qty recipient fee slippage =
     ebind (exchange c output_token) (\<lambda>ex.
     ebind (V1_get_eth_token_output_price c output_token qty fee) (\<lambda>eth_qty.
       let params = [PNum qty, PNum (deadline c)]
       in if no_recipient recipient then
            Inr \<lparr>contract = ex, function_name = ''ethToTokenSwapOutput'',
                 func_params = params, tx_value = eth_qty\<rparr>
          else
            Inr \<lparr>contract = ex, function_name = ''ethToTokenTransferOutput'',
                 func_params = params @ [PAddr (the recipient)], tx_value = eth_qty\<rparr>))"

text \<open>
  \<^verbatim>\<open>_token_to_eth_swap_output\<close>: the cost \<^verbatim>\<open>inputAmount\<close> is computed from the reserves of the
  input token's exchange, and \<^verbatim>\<open>max_tokens = int((1 + slippage) * inputAmount)\<close> is the limit
  passed to the contract.
\<close>

definition V1_token_to_eth_swap_output ::
  "chain \<Rightarrow> address \<Rightarrow> int \<Rightarrow> address option \<Rightarrow> FeeTier \<Rightarrow> pynum \<Rightarrow> error + instruction" where
  "V1_token_to_eth_swap_output c input_token qty recipient fee slippage =
     (let outputAmount = PInt qty;
          inputReserve = get_ex_token_balance c input_token;
          outputReserve = get_ex_eth_balance c input_token
      in ebind (exact_output_amount outputAmount inputReserve outputReserve) (\<lambda>inputAmount.
         ebind (py_add (PInt 1) slippage) (\<lambda>s.
         ebind (py_mul s inputAmount) (\<lambda>m.
         ebind (py_int m) (\<lambda>max_tokens.
         ebind (exchange c input_token) (\<lambda>ex.
           let params = [PNum qty, PNum max_tokens, PNum (deadline c)]
           in if no_recipient recipient then
                Inr \<lparr>contract = ex, function_name = ''tokenToEthSwapOutput'',
                     func_params = params, tx_value = 0\<rparr>
              else
                Inr \<lparr>contract = ex, function_name = ''tokenToEthTransferOutput'',
                     func_params = params @ [PAddr (the recipient)], tx_value = 0\<rparr>))))))"

definition V1_token_to_token_swap_output ::
  "chain \<Rightarrow> address \<Rightarrow> address \<Rightarrow> int \<Rightarrow> address option \<Rightarrow> FeeTier \<Rightarrow> pynum \<Rightarrow> error + instruction" where
  "V1_token_to_token_swap_output c input_token output_token qty recipient fee slippage =
     ebind (exchange c input_token) (\<lambda>ex.
     ebind (calculate_max_input_token c input_token qty output_token) (\<lambda>(max_tokens_sold, max_eth_sold).
       let params = [PNum qty, PNum max_tokens_sold, PNum max_eth_sold, PNum (deadline c)]
       in if no_recipient recipient then
            Inr \<lparr>contract = ex, function_name = ''tokenToTokenSwapOutput'',
                 func_params = params @ [PAddr output_token], tx_value = 0\<rparr>
          else
            Inr \<lparr>contract = ex, function_name = ''tokenToTokenTransferOutput'',
                 func_params = params @ [PAddr (the recipient), PAddr output_token], tx_value = 0\<rparr>))"

text \<open>
  The client object: the methods of \<^verbatim>\<open>UniswapV1\<close> in the slots of the base class. The
  version number, the default slippage, the wallet address and the approval step are the
  constructor's.
\<close>

definition UniswapV1 ::
  "int \<Rightarrow> pynum \<Rightarrow> address \<Rightarrow> (chain \<Rightarrow> address \<Rightarrow> address \<Rightarrow> error option) \<Rightarrow> client" where
  "UniswapV1 v slippage addr approval =
     \<lparr>client_version = v,
      default_slippage = slippage,
      wallet = addr,
      check_approval = approval,
      get_eth_token_input_price = V1_get_eth_token_input_price,
      get_token_eth_input_price = V1_get_token_eth_input_price,
      get_token_token_input_price = V1_get_token_token_input_price v,
      get_eth_token_output_price = V1_get_eth_token_output_price,
      get_token_eth_output_price = V1_get_token_eth_output_price,
      get_token_token_output_price = V1_get_token_token_output_price v,
      eth_to_token_swap_input = V1_eth_to_token_swap_input,
      token_to_eth_swap_input = V1_token_to_eth_swap_input,
      token_to_token_swap_input = V1_token_to_token_swap_input,
      eth_to_token_swap_output = V1_eth_to_token_swap_output,
      token_to_eth_swap_output = V1_token_to_eth_swap_output,
      token_to_token_swap_output = V1_token_to_token_swap_output\<rparr>"

section \<open>The properties as the specification words them\<close>

text \<open>
  The specification's single-leg quotes in integer arithmetic, for comparison with the
  client's computation: \<open>spec_exact_output\<close> is
  \<open>floor(amountOut * reserveIn * 1000 / ((reserveOut - amountOut) * 997)) + 1\<close> and
  \<open>spec_exact_input\<close> is \<open>floor(amountIn * reserveOut * 997 / (reserveIn * 1000 + amountIn * 997))\<close>.
  The division \<open>div\<close> rounds down, which on the non-negative amounts of a quote is also
  truncation toward zero.
\<close>

definition spec_exact_output :: "int \<Rightarrow> int \<Rightarrow> int \<Rightarrow> int" where
  "spec_exact_output amountOut reserveIn reserveOut =
     (amountOut * reserveIn * 1000) div ((reserveOut - amountOut) * 997) + 1"

definition spec_exact_input :: "int \<Rightarrow> int \<Rightarrow> int \<Rightarrow> int" where
  "spec_exact_input amountIn reserveIn reserveOut =
     (amountIn * reserveOut * 997) div (reserveIn * 1000 + amountIn * 997)"

text \<open>
  The specification's two-hop exact-output cost: the bridge amount needed to buy the final
  output, then the input needed to buy that bridge amount, each by \<open>spec_exact_output\<close>.
\<close>

definition spec_two_hop_exact_output :: "chain \<Rightarrow> address \<Rightarrow> int \<Rightarrow> address \<Rightarrow> int" where
  "spec_two_hop_exact_output c input_token qty output_token =
     (let bridge = spec_exact_output qty (get_ex_eth_balance c output_token)
                     (get_ex_token_balance c output_token)
      in spec_exact_output bridge (get_ex_token_balance c input_token)
           (get_ex_eth_balance c input_token))"

text \<open>The specification's margin on the bridging leg, \<open>ceil(1.2 * computed)\<close>.\<close>

definition spec_bridge_margin :: "rat \<Rightarrow> int" where
  "spec_bridge_margin computed = \<lceil>(12 / 10) * computed\<rceil>"

text \<open>The specification's limit of an exact-output trade, \<open>ceil((1 + slippage) * cost)\<close>.\<close>

definition spec_amount_in_max :: "rat \<Rightarrow> int \<Rightarrow> int" where
  "spec_amount_in_max slippage cost = \<lceil>(1 + slippage) * of_int cost\<rceil>"

text \<open>
  The round trip of the specification: the exact-input proceeds of \<open>a\<close>, then the
  exact-output cost of those proceeds on the same reserves.
\<close>

definition round_trip :: "int \<Rightarrow> int \<Rightarrow> int \<Rightarrow> error + pynum" where
  "round_trip a reserveIn reserveOut =
     ebind (exact_input_amount (PInt a) reserveIn reserveOut) (\<lambda>out.
     exact_output_amount out reserveIn reserveOut)"

text \<open>
  The same round trip with the proceeds truncated to an integer quantity, as \<open>int()\<close>
  truncates every amount that the client passes on.
\<close>

definition round_trip_int :: "int \<Rightarrow> int \<Rightarrow> int \<Rightarrow> error + pynum" where
  "round_trip_int a reserveIn reserveOut =
     ebind (exact_input_amount (PInt a) reserveIn reserveOut) (\<lambda>out.
     ebind (py_int out) (\<lambda>out'.
     exact_output_amount (PInt out') reserveIn reserveOut))"

section \<open>A reserve fixture\<close>

text \<open>
  Two exchanges with fixed reserves: the exchange of token \<open>A\<close> holds 997 tokens and 2002 wei,
  the exchange of token \<open>B\<close> holds 2000 tokens and 997 wei. The contract's own price getters
  answer a quote of 1000, the wallet holds 1010 wei and 1010 of every token.
\<close>

definition fixture :: chain where
  "fixture =
     \<lparr>get_ex_eth_balance = (\<lambda>token. if token = ''B'' then 997 else 2002),
      get_ex_token_balance = (\<lambda>token. if token = ''B'' then 2000 else 997),
      getExchange = (\<lambda>token. Some (''exchange of '' @ token)),
      getEthToTokenInputPrice = (\<lambda>ex qty. 1000),
      getTokenToEthInputPrice = (\<lambda>ex qty. 1000),
      getEthToTokenOutputPrice = (\<lambda>ex qty. 1000),
      getTokenToEthOutputPrice = (\<lambda>ex qty. 1000),
      get_eth_balance = 1010,
      erc20_balance = (\<lambda>token. 1010),
      time = 0\<rparr>"

text \<open>
  A version 1 client on the fixture: default slippage \<open>0.01\<close>, and an approval step that
  passes.
\<close>

definition fixture_client :: client where
  "fixture_client = UniswapV1 1 (PFloat float_0_01) ''wallet'' (\<lambda>c input_token output_token. None)"

section \<open>Facts about rounding\<close>

text \<open>Rounding to an integer is monotone against integers.\<close>

lemma rne_le_int: "r \<le> of_int k \<Longrightarrow> rne r \<le> k"
proof (cases "r = of_int k")
  case True
  then show ?thesis by (simp add: rne_def Let_def)
next
  case False
  assume "r \<le> of_int k"
  with False have "r < of_int k" by simp
  then have "\<lfloor>r\<rfloor> < k" by (simp add: floor_less_iff)
  moreover have "rne r \<le> \<lfloor>r\<rfloor> + 1" by (simp add: rne_def Let_def)
  ultimately show ?thesis by linarith
qed

lemma rne_ge_int: "of_int k \<le> r \<Longrightarrow> k \<le> rne r"
proof -
  assume "of_int k \<le> r"
  then have "k \<le> \<lfloor>r\<rfloor>" by (simp add: le_floor_iff)
  moreover have "\<lfloor>r\<rfloor> \<le> rne r" by (simp add: rne_def Let_def)
  ultimately show ?thesis by linarith
qed

lemma bitlen_lower: "0 < a \<Longrightarrow> (2::rat) powi (bitlen a - 1) \<le> of_int a"
proof -
  assume a: "0 < a"
  have ba: "1 \<le> bitlen a" using a bitlen_eq_zero_iff [of a] bitlen_nonneg [of a] by linarith
  have "(2::int) ^ nat (bitlen a - 1) \<le> a" using bitlen_bounds [OF a] by simp
  then have "(of_int ((2::int) ^ nat (bitlen a - 1)) :: rat) \<le> of_int a"
    by (simp only: of_int_le_iff)
  then show ?thesis using ba by (simp add: power_int_def)
qed

lemma bitlen_upper: "0 < a \<Longrightarrow> of_int a < (2::rat) powi (bitlen a)"
proof -
  assume a: "0 < a"
  have "a < (2::int) ^ nat (bitlen a)" using bitlen_bounds [OF a] by simp
  then have "(of_int a :: rat) < of_int ((2::int) ^ nat (bitlen a))"
    by (simp only: of_int_less_iff)
  then show ?thesis using bitlen_nonneg [of a] by (simp add: power_int_def)
qed

lemma binade_bounds:
  assumes "0 < q"
  shows "2 powi (binade q) \<le> q \<and> q < 2 powi (binade q + 1)"
proof -
  obtain a b where ab: "quotient_of q = (a, b)" by (cases "quotient_of q")
  then have b: "0 < b" and q: "q = of_int a / of_int b"
    using quotient_of_denom_pos quotient_of_div by blast+
  from assms q b have a: "0 < a"
    by (simp add: zero_less_divide_iff)
  let ?k = "bitlen a - bitlen b"
  have b': "(0::rat) < of_int b" using b by simp
  have a': "(0::rat) < of_int a" using a by simp
  have lo: "(2::rat) powi (?k - 1) \<le> q"
  proof -
    have "(2::rat) powi (?k - 1) = 2 powi (bitlen a - 1) / 2 powi (bitlen b)"
      by (simp add: power_int_diff)
    also have "\<dots> \<le> of_int a / 2 powi (bitlen b)"
      using bitlen_lower [OF a] by (simp add: divide_right_mono)
    also have "\<dots> \<le> of_int a / of_int b"
      using bitlen_upper [OF b] a' b' by (simp add: divide_left_mono)
    finally show ?thesis using q by simp
  qed
  have hi: "q < (2::rat) powi (?k + 1)"
  proof -
    have p0: "(0::rat) < 2 powi (bitlen b - 1)" by simp
    have "of_int a / of_int b \<le> of_int a / (2::rat) powi (bitlen b - 1)"
      using frac_le [of "of_int a" "of_int a" "(2::rat) powi (bitlen b - 1)" "of_int b"]
        bitlen_lower [OF b] a' p0 by simp
    also have "\<dots> < 2 powi (bitlen a) / (2::rat) powi (bitlen b - 1)"
      using bitlen_upper [OF a] p0 by (simp add: divide_strict_right_mono)
    also have "\<dots> = (2::rat) powi (?k + 1)"
      by (simp add: power_int_diff power_int_add)
    finally show ?thesis using q by simp
  qed
  show ?thesis
  proof (cases "2 powi ?k \<le> q")
    case True
    then have "binade q = ?k" using ab by (simp add: binade_def Let_def)
    with True hi show ?thesis by simp
  next
    case False
    then have "binade q = ?k - 1" using ab by (simp add: binade_def Let_def)
    with False lo show ?thesis by simp
  qed
qed

lemma binade_unique:
  assumes "2 powi p \<le> q" and "q < 2 powi (p + 1)"
  shows "binade q = p"
proof -
  have "(0::rat) < 2 powi p" by simp
  with assms(1) have q: "0 < q" by linarith
  note b = binade_bounds [OF q]
  have "(2::rat) powi p < 2 powi (binade q + 1)" using assms(1) b by linarith
  then have 1: "p < binade q + 1"
    by (metis one_less_numeral_iff power_int_increasing semiring_norm(76) not_le less_imp_le)
  have "(2::rat) powi (binade q) < 2 powi (p + 1)" using assms(2) b by linarith
  then have 2: "binade q < p + 1"
    by (metis one_less_numeral_iff power_int_increasing semiring_norm(76) not_le less_imp_le)
  from 1 2 show ?thesis by linarith
qed

lemma to_double_normal:
  assumes "2 powi p \<le> q" and "q < 2 powi (p + 1)" and "- 1022 \<le> p" and "p \<le> 1022"
  shows "to_double q = Finite (of_int (rne (q / 2 powi (p - 52))) * 2 powi (p - 52))"
proof -
  have "(0::rat) < 2 powi p" by simp
  with assms(1) have q: "0 < q" by linarith
  have bq: "binade q = p" using assms(1,2) by (rule binade_unique)
  have e: "max (binade q - 52) (- 1074) = p - 52" using bq assms(3) by simp
  let ?u = "(2::rat) powi (p - 52)"
  let ?m = "rne (q / ?u)"
  have u0: "0 < ?u" by simp
  have rr: "round_rat q = of_int ?m * ?u"
    using q by (simp add: round_rat_def round_pos_def Let_def e)
  have "q / ?u \<le> 2 powi (p + 1) / ?u" using assms(2) u0 by (simp add: divide_right_mono)
  also have "\<dots> = 2 powi (53::int)" by (simp flip: power_int_diff)
  also have "\<dots> = of_int (2 ^ 53)" by (simp add: power_int_def)
  finally have "?m \<le> 2 ^ 53" by (rule rne_le_int)
  then have "(of_int ?m :: rat) \<le> of_int (2 ^ 53)" by (simp only: of_int_le_iff)
  then have "(of_int ?m :: rat) \<le> 2 powi (53::int)" by (simp add: power_int_def)
  then have "of_int ?m * ?u \<le> 2 powi (53::int) * ?u" using u0 by (simp add: mult_right_mono)
  also have "\<dots> = 2 powi (53 + (p - 52))" by (subst power_int_add) simp_all
  also have "\<dots> = 2 powi (p + 1)" by (simp add: add.commute)
  also have "\<dots> \<le> 2 powi (1023::int)" using assms(4) by (intro power_int_increasing) simp_all
  also have "\<dots> \<le> max_double" by (simp add: max_double_def power_int_def)
  finally have hi: "round_rat q \<le> max_double" using rr by simp
  have "(0::rat) \<le> q / ?u" using q u0 by simp
  then have "0 \<le> ?m" using rne_ge_int [of 0 "q / ?u"] by simp
  then have "0 \<le> round_rat q" using rr u0 by simp
  moreover have "0 \<le> max_double" by (simp add: max_double_def)
  ultimately have lo: "\<not> round_rat q < - max_double" by linarith
  from hi lo show ?thesis by (simp add: to_double_def Let_def rr)
qed

lemma rne_eqI: "\<bar>r - of_int m\<bar> < 1 / 2 \<Longrightarrow> rne r = m"
proof -
  assume a: "\<bar>r - of_int m\<bar> < 1 / 2"
  show ?thesis
  proof (cases "of_int m \<le> r")
    case True
    with a have "r < of_int m + 1" "r - of_int m < 1 / 2" by linarith+
    with True have f: "\<lfloor>r\<rfloor> = m" by (simp add: floor_eq_iff)
    with \<open>r - of_int m < 1 / 2\<close> show ?thesis by (simp add: rne_def Let_def)
  next
    case False
    with a have b: "of_int (m - 1) \<le> r" "r < of_int (m - 1) + 1" "1 / 2 < r - of_int (m - 1)"
      by simp_all
    then have f: "\<lfloor>r\<rfloor> = m - 1" by (simp only: floor_eq_iff)
    with b(3) show ?thesis by (simp add: rne_def Let_def)
  qed
qed

lemma rne_tieI:
  assumes "\<bar>r - of_int m\<bar> = 1 / 2" and "even m"
  shows "rne r = m"
proof (cases "of_int m \<le> r")
  case True
  with assms(1) have r: "r = of_int m + 1 / 2" by linarith
  then have "\<lfloor>r\<rfloor> = m" by (simp add: floor_eq_iff)
  with r assms(2) show ?thesis by (simp add: rne_def Let_def)
next
  case False
  with assms(1) have r: "r = of_int (m - 1) + 1 / 2" by simp
  then have "of_int (m - 1) \<le> r" "r < of_int (m - 1) + 1" by simp_all
  then have "\<lfloor>r\<rfloor> = m - 1" by (simp only: floor_eq_iff)
  with r assms(2) show ?thesis by (simp add: rne_def Let_def)
qed

lemma to_double_evalI:
  assumes "2 ^ 52 \<le> q * 2 ^ k" and "q * 2 ^ k < 2 ^ 53" and "k \<le> 1074"
    and "rne (q * 2 ^ k) = m"
  shows "to_double q = Finite (of_int m / 2 ^ k)"
proof -
  define p :: int where "p = 52 - int k"
  have u: "(2::rat) powi (p - 52) = 1 / 2 ^ k"
    by (simp add: p_def power_int_def inverse_eq_divide power_one_over)
  have k0: "(0::rat) < 2 ^ k" by simp
  have "(2::rat) powi p = 2 powi 52 * 2 powi (- int k)"
    unfolding p_def by (subst power_int_add [symmetric]) simp_all
  also have "\<dots> = 2 ^ 52 / 2 ^ k"
    by (simp add: power_int_def inverse_eq_divide power_one_over)
  finally have pp: "(2::rat) powi p = 2 ^ 52 / 2 ^ k" .
  have "(2::rat) powi (p + 1) = 2 powi 53 * 2 powi (- int k)"
    unfolding p_def by (subst power_int_add [symmetric]) simp_all
  also have "\<dots> = 2 ^ 53 / 2 ^ k"
    by (simp add: power_int_def inverse_eq_divide power_one_over)
  finally have pp1: "(2::rat) powi (p + 1) = 2 ^ 53 / 2 ^ k" .
  have 1: "2 powi p \<le> q" using assms(1) k0 by (simp only: pp pos_divide_le_eq)
  have 2: "q < 2 powi (p + 1)" using assms(2) k0 by (simp only: pp1 pos_less_divide_eq)
  have 3: "- 1022 \<le> p" "p \<le> 1022" using assms(3) by (simp_all add: p_def)
  from to_double_normal [OF 1 2 3] assms(4) show ?thesis by (simp add: u)
qed

text \<open>Below \<open>2 ^ 53\<close> rounding never crosses an integer: integers are exact.\<close>

lemma round_pos_bounds:
  assumes "0 < q" and "q < 2 ^ 53"
  shows "of_int \<lfloor>q\<rfloor> \<le> round_pos q \<and> round_pos q \<le> of_int \<lceil>q\<rceil>"
proof -
  define e where "e = max (binade q - 52) (- 1074)"
  have p53: "(2::rat) powi (53::int) = 2 ^ 53" by (simp add: power_int_def)
  have "(2::rat) powi (binade q) \<le> q"
    using binade_bounds [OF assms(1)] by simp
  with assms(2) have "(2::rat) powi (binade q) < 2 ^ 53" by linarith
  then have "(2::rat) powi (binade q) < 2 powi (53::int)" by (simp only: p53)
  then have "binade q < 53"
    by (rule power_int_le_imp_less_exp [rotated]) simp_all
  then have e0: "e \<le> 0" by (simp add: e_def)
  define N :: int where "N = 2 ^ nat (- e)"
  have N0: "0 < N" by (simp add: N_def)
  have pe: "(2::rat) powi e = 1 / of_int N"
    using e0 by (cases "e = 0") (simp_all add: N_def power_int_def inverse_eq_divide power_one_over)
  have rp: "round_pos q = of_int (rne (q * of_int N)) / of_int N"
    by (simp add: round_pos_def Let_def e_def [symmetric] pe)
  have "(of_int (\<lfloor>q\<rfloor> * N) :: rat) \<le> q * of_int N"
    using N0 by (simp add: mult_right_mono)
  then have lo: "\<lfloor>q\<rfloor> * N \<le> rne (q * of_int N)" by (rule rne_ge_int)
  have "q * of_int N \<le> (of_int (\<lceil>q\<rceil> * N) :: rat)"
    using N0 by (simp add: mult_right_mono)
  then have hi: "rne (q * of_int N) \<le> \<lceil>q\<rceil> * N" by (rule rne_le_int)
  have "(of_int (\<lfloor>q\<rfloor> * N) :: rat) \<le> of_int (rne (q * of_int N))"
    using lo by (simp only: of_int_le_iff)
  then have 1: "of_int \<lfloor>q\<rfloor> \<le> round_pos q"
    using N0 by (simp add: rp pos_le_divide_eq)
  have "(of_int (rne (q * of_int N)) :: rat) \<le> of_int (\<lceil>q\<rceil> * N)"
    using hi by (simp only: of_int_le_iff)
  then have 2: "round_pos q \<le> of_int \<lceil>q\<rceil>"
    using N0 by (simp add: rp pos_divide_le_eq)
  from 1 2 show ?thesis ..
qed

lemma round_rat_bounds:
  assumes "\<bar>q\<bar> < 2 ^ 53"
  shows "of_int \<lfloor>q\<rfloor> \<le> round_rat q \<and> round_rat q \<le> of_int \<lceil>q\<rceil>"
proof -
  consider "q = 0" | "0 < q" | "q < 0" by linarith
  then show ?thesis
  proof cases
    case 1
    then show ?thesis by (simp add: round_rat_def)
  next
    case 2
    with assms have "q < 2 ^ 53" by simp
    from round_pos_bounds [OF 2 this] 2 show ?thesis by (simp add: round_rat_def)
  next
    case 3
    with assms have "0 < - q" "- q < 2 ^ 53" by simp_all
    from round_pos_bounds [OF this] have
      "of_int \<lfloor>- q\<rfloor> \<le> round_pos (- q)" "round_pos (- q) \<le> of_int \<lceil>- q\<rceil>" by simp_all
    then have "- of_int \<lceil>q\<rceil> \<le> round_pos (- q)" "round_pos (- q) \<le> - of_int \<lfloor>q\<rfloor>"
      by (simp_all only: floor_minus ceiling_minus of_int_minus)
    with 3 show ?thesis by (simp add: round_rat_def)
  qed
qed

lemma to_double_bounds:
  assumes "\<bar>q\<bar> < 2 ^ 53"
  shows "\<exists>r. to_double q = Finite r \<and> of_int \<lfloor>q\<rfloor> \<le> r \<and> r \<le> of_int \<lceil>q\<rceil>"
proof -
  have b: "of_int \<lfloor>q\<rfloor> \<le> round_rat q" "round_rat q \<le> of_int \<lceil>q\<rceil>"
    using round_rat_bounds [OF assms] by simp_all
  have "q \<le> 2 ^ 53" "- (2 ^ 53) \<le> q" using assms by simp_all
  then have "\<lceil>q\<rceil> \<le> 2 ^ 53" "- (2 ^ 53) \<le> \<lfloor>q\<rfloor>"
    by (simp_all add: ceiling_le_iff le_floor_iff)
  then have "(of_int \<lceil>q\<rceil> :: rat) \<le> of_int (2 ^ 53)" "(of_int (- (2 ^ 53)) :: rat) \<le> of_int \<lfloor>q\<rfloor>"
    by (simp_all only: of_int_le_iff)
  then have c: "(of_int \<lceil>q\<rceil> :: rat) \<le> 2 ^ 53" "- (2 ^ 53) \<le> (of_int \<lfloor>q\<rfloor> :: rat)" by simp_all
  have m: "(2::rat) ^ 53 \<le> max_double" by (simp add: max_double_def)
  from b c m have "\<not> max_double < round_rat q" "\<not> round_rat q < - max_double" by linarith+
  then have "to_double q = Finite (round_rat q)" by (simp add: to_double_def Let_def)
  with b show ?thesis by simp
qed

lemma to_double_of_int:
  assumes "\<bar>n\<bar> < 2 ^ 53"
  shows "to_double (of_int n) = Finite (of_int n)"
proof -
  have "\<bar>(of_int n :: rat)\<bar> < of_int (2 ^ 53)"
    using assms by (simp only: of_int_abs [symmetric] of_int_less_iff)
  then have "\<bar>(of_int n :: rat)\<bar> < 2 ^ 53" by simp
  from to_double_bounds [OF this] show ?thesis by auto
qed

text \<open>
  The error of a rounding: half a unit in the last place, which is at most the value divided
  by \<open>2 ^ 53\<close>, or \<open>1 / 2 ^ 1075\<close> in the subnormal range. A value of at most \<open>2 ^ 1023\<close> in
  absolute value is rounded to a finite float.
\<close>

lemma rne_error: "\<bar>of_int (rne r) - r\<bar> \<le> 1 / 2"
proof -
  have f: "of_int \<lfloor>r\<rfloor> \<le> r" "r < of_int \<lfloor>r\<rfloor> + 1" by linarith+
  show ?thesis
  proof (cases "r - of_int \<lfloor>r\<rfloor> < 1 / 2")
    case True
    then have "rne r = \<lfloor>r\<rfloor>" by (simp add: rne_def Let_def)
    with True f show ?thesis by simp
  next
    case False
    show ?thesis
    proof (cases "1 / 2 < r - of_int \<lfloor>r\<rfloor>")
      case True
      with False have "rne r = \<lfloor>r\<rfloor> + 1" by (simp add: rne_def Let_def)
      with True f show ?thesis by simp
    next
      case F2: False
      with False have h: "r - of_int \<lfloor>r\<rfloor> = 1 / 2" by linarith
      have "rne r = \<lfloor>r\<rfloor> \<or> rne r = \<lfloor>r\<rfloor> + 1" by (simp add: rne_def Let_def)
      with h show ?thesis by auto
    qed
  qed
qed

lemma round_pos_error:
  assumes "0 < q"
  shows "\<bar>round_pos q - q\<bar> \<le> q / 2 ^ 53 + 1 / 2 ^ 1075"
proof -
  define e where "e = max (binade q - 52) (- 1074)"
  define E :: rat where "E = 2 powi e"
  have E0: "0 < E" by (simp add: E_def)
  have rp: "round_pos q = of_int (rne (q / E)) * E"
    by (simp add: round_pos_def Let_def e_def E_def)
  have "\<bar>of_int (rne (q / E)) - q / E\<bar> \<le> 1 / 2" by (rule rne_error)
  then have "\<bar>of_int (rne (q / E)) - q / E\<bar> * E \<le> 1 / 2 * E"
    using E0 by (intro mult_right_mono) simp_all
  moreover have "\<bar>of_int (rne (q / E)) - q / E\<bar> * E = \<bar>(of_int (rne (q / E)) - q / E) * E\<bar>"
    using E0 by (simp add: abs_mult)
  moreover have "(of_int (rne (q / E)) - q / E) * E = round_pos q - q"
    using E0 by (simp add: rp left_diff_distrib)
  ultimately have err: "\<bar>round_pos q - q\<bar> \<le> E / 2" by simp
  have "E \<le> q / 2 ^ 52 \<or> E = 1 / 2 ^ 1074"
  proof (cases "- 1074 \<le> binade q - 52")
    case True
    then have "e = binade q - 52" by (simp add: e_def)
    then have "(2::rat) powi (binade q) = 2 powi (e + 52)" by simp
    also have "\<dots> = 2 powi e * 2 powi (52::int)" by (subst power_int_add) simp_all
    also have "\<dots> = E * 2 ^ 52" by (simp only: E_def) (simp add: power_int_def)
    finally have "E = 2 powi (binade q) / 2 ^ 52" by simp
    moreover have "2 powi (binade q) \<le> q" using binade_bounds [OF assms] by simp
    ultimately show ?thesis by (simp add: divide_right_mono)
  next
    case False
    then have "e = - 1074" by (simp add: e_def)
    then have "E = 1 / 2 ^ 1074"
      by (simp add: E_def power_int_def inverse_eq_divide power_one_over)
    then show ?thesis ..
  qed
  then show ?thesis
  proof
    assume "E \<le> q / 2 ^ 52"
    with err assms show ?thesis by simp
  next
    assume "E = 1 / 2 ^ 1074"
    with err assms show ?thesis by simp
  qed
qed

lemma round_rat_error: "\<bar>round_rat q - q\<bar> \<le> \<bar>q\<bar> / 2 ^ 53 + 1 / 2 ^ 1075"
proof -
  consider "q = 0" | "0 < q" | "q < 0" by linarith
  then show ?thesis
  proof cases
    case 1
    then show ?thesis by (simp add: round_rat_def)
  next
    case 2
    from round_pos_error [OF 2] 2 show ?thesis by (simp add: round_rat_def)
  next
    case 3
    then have "0 < - q" by simp
    from round_pos_error [OF this] have "\<bar>round_pos (- q) + q\<bar> \<le> - q / 2 ^ 53 + 1 / 2 ^ 1075"
      by simp
    moreover have "\<bar>- round_pos (- q) - q\<bar> = \<bar>round_pos (- q) + q\<bar>" by linarith
    ultimately show ?thesis using 3 by (simp add: round_rat_def)
  qed
qed

lemma round_rat_error_unit: "\<bar>round_rat q - q\<bar> \<le> (\<bar>q\<bar> + 1) / 2 ^ 53"
proof -
  have "(1::rat) / 2 ^ 1075 \<le> 1 / 2 ^ 53" by simp
  with round_rat_error [of q] show ?thesis by (simp add: add_divide_distrib)
qed

lemma to_double_finite:
  assumes "\<bar>q\<bar> \<le> 2 ^ 1023"
  shows "to_double q = Finite (round_rat q)"
proof -
  note e = round_rat_error_unit [of q]
  have m: "(2::rat) ^ 1023 + (2 ^ 1023 + 1) / 2 ^ 53 \<le> max_double" by (simp add: max_double_def)
  have "(\<bar>q\<bar> + 1) / 2 ^ 53 \<le> (2 ^ 1023 + 1) / 2 ^ 53" using assms by (simp add: divide_right_mono)
  with e assms m have "\<bar>round_rat q\<bar> \<le> max_double" by linarith
  then have "\<not> max_double < round_rat q" "\<not> round_rat q < - max_double" by linarith+
  then show ?thesis by (simp add: to_double_def Let_def)
qed

text \<open>
  A quotient of two positive integers below \<open>2 ^ 53\<close> that is not an integer is rounded
  to a float strictly between the two neighbouring integers.
\<close>

lemma rne_less_int:
  assumes "r + 1 / 2 < of_int k"
  shows "rne r < k"
proof -
  have f: "of_int \<lfloor>r\<rfloor> \<le> r" by simp
  from assms f have "(of_int \<lfloor>r\<rfloor> :: rat) < of_int k" by linarith
  then have fk: "\<lfloor>r\<rfloor> < k" by (simp only: of_int_less_iff)
  show ?thesis
  proof (cases "\<lfloor>r\<rfloor> + 1 < k")
    case True
    moreover have "rne r \<le> \<lfloor>r\<rfloor> + 1" by (simp add: rne_def Let_def)
    ultimately show ?thesis by linarith
  next
    case False
    with fk have k: "k = \<lfloor>r\<rfloor> + 1" by linarith
    with assms have "r - of_int \<lfloor>r\<rfloor> < 1 / 2" by simp
    then have "rne r = \<lfloor>r\<rfloor>" by (simp add: rne_def Let_def)
    with k show ?thesis by simp
  qed
qed

lemma rne_greater_int:
  assumes "of_int k + 1 / 2 < r"
  shows "k < rne r"
proof -
  from assms have "of_int k \<le> r" by linarith
  then have kf: "k \<le> \<lfloor>r\<rfloor>" by (simp add: le_floor_iff)
  have ge: "\<lfloor>r\<rfloor> \<le> rne r" by (simp add: rne_def Let_def)
  show ?thesis
  proof (cases "k < \<lfloor>r\<rfloor>")
    case True
    with ge show ?thesis by linarith
  next
    case False
    with kf have k: "k = \<lfloor>r\<rfloor>" by linarith
    with assms have "1 / 2 < r - of_int \<lfloor>r\<rfloor>" by simp
    then have "rne r = \<lfloor>r\<rfloor> + 1" by (simp add: rne_def Let_def)
    with k show ?thesis by simp
  qed
qed

lemma to_double_Finite_round: "to_double q = Finite r \<Longrightarrow> r = round_rat q"
  by (simp add: to_double_def Let_def split: if_splits)

lemma round_pos_scaled:
  assumes n: "0 < n" "n < 2 ^ 53" and d: "0 < d" "d < 2 ^ 53"
  shows "\<exists>N::int. 0 < N
           \<and> round_pos (of_int n / of_int d) = of_int (rne (of_int n / of_int d * of_int N)) / of_int N
           \<and> of_int d < 2 * (of_int N :: rat)"
proof -
  define q :: rat where "q = of_int n / of_int d"
  have q0: "0 < q" using n(1) d(1) by (simp add: q_def)
  have dr: "(0::rat) < of_int d" using d(1) by simp
  have "(of_int n :: rat) < of_int (2 ^ 53)" using n(2) by (simp only: of_int_less_iff)
  then have nr: "(of_int n :: rat) < 2 ^ 53" by simp
  have "(of_int d :: rat) < of_int (2 ^ 53)" using d(2) by (simp only: of_int_less_iff)
  then have dr53: "(of_int d :: rat) < 2 ^ 53" by simp
  have "(1::rat) \<le> of_int d" using d(1) by simp
  then have "q \<le> of_int n" using n(1) unfolding q_def by (simp add: pos_divide_le_eq mult_le_cancel_left1)
  with nr have q53: "q < 2 ^ 53" by linarith
  have "(1::rat) \<le> of_int n" using n(1) by simp
  then have "1 / of_int d \<le> q" using dr unfolding q_def by (simp add: divide_right_mono)
  moreover have "1 / 2 ^ 53 < 1 / (of_int d :: rat)" using dr dr53 by (simp add: frac_less2)
  ultimately have qlow: "1 / 2 ^ 53 < q" by linarith
  note b = binade_bounds [OF q0]
  have p53: "(2::rat) powi (53::int) = 2 ^ 53" by (simp add: power_int_def)
  have pm53: "(2::rat) powi (- 53) = 1 / 2 ^ 53" by (simp add: power_int_def inverse_eq_divide power_one_over)
  from b q53 have "(2::rat) powi (binade q) < 2 powi (53::int)" by (simp only: p53) linarith
  then have pu: "binade q < 53" by (rule power_int_le_imp_less_exp [rotated]) simp_all
  from b qlow have "(2::rat) powi (- 53) < 2 powi (binade q + 1)" by (simp only: pm53) linarith
  then have "- 53 < binade q + 1"
    by (metis one_less_numeral_iff power_int_increasing semiring_norm(76) not_le less_imp_le)
  then have pl: "- 54 < binade q" by simp
  define e where "e = binade q - 52"
  have emax: "max (binade q - 52) (- 1074) = e" using pl by (simp add: e_def)
  have e0: "e \<le> 0" using pu by (simp add: e_def)
  define N :: int where "N = 2 ^ nat (- e)"
  have N0: "0 < N" by (simp add: N_def)
  have Nr: "(0::rat) < of_int N" using N0 by simp
  have pe: "(2::rat) powi e = 1 / of_int N"
    using e0 by (cases "e = 0") (simp_all add: N_def power_int_def inverse_eq_divide power_one_over)
  have rp: "round_pos q = of_int (rne (q * of_int N)) / of_int N"
    by (simp add: round_pos_def Let_def emax pe)
  have "(2::rat) powi (binade q) = 2 powi (52 + e)" by (simp add: e_def)
  also have "\<dots> = 2 powi (52::int) * 2 powi e" by (subst power_int_add) simp_all
  also have "\<dots> = 2 ^ 52 * (1 / of_int N)" by (simp only: pe) (simp add: power_int_def)
  also have "\<dots> = 2 ^ 52 / of_int N" by simp
  finally have "2 ^ 52 / of_int N \<le> q" using b by simp
  then have "2 ^ 52 \<le> q * of_int N" using Nr by (simp add: pos_divide_le_eq)
  then have "2 ^ 52 * of_int d \<le> of_int n * (of_int N :: rat)"
    using dr unfolding q_def by (simp add: pos_le_divide_eq mult.commute)
  moreover have "of_int n * (of_int N :: rat) < 2 ^ 53 * of_int N"
    using nr Nr by (rule mult_strict_right_mono)
  ultimately have "2 ^ 52 * of_int d < 2 ^ 53 * (of_int N :: rat)" by (rule le_less_trans)
  then have dN: "of_int d < 2 * (of_int N :: rat)" by simp
  from N0 rp dN show ?thesis unfolding q_def by blast
qed

lemma round_pos_below_ceiling:
  assumes n: "0 < n" "n < 2 ^ 53" and d: "0 < d" "d < 2 ^ 53" and nd: "\<not> d dvd n"
  shows "round_pos (of_int n / of_int d) < of_int \<lceil>(of_int n :: rat) / of_int d\<rceil>"
proof -
  define q :: rat where "q = of_int n / of_int d"
  define c where "c = \<lceil>q\<rceil>"
  have dr: "(0::rat) < of_int d" using d(1) by simp
  from round_pos_scaled [OF n d] obtain N :: int where N0: "0 < N"
    and rp: "round_pos q = of_int (rne (q * of_int N)) / of_int N"
    and dN: "of_int d < 2 * (of_int N :: rat)" unfolding q_def by blast
  have Nr: "(0::rat) < of_int N" using N0 by simp
  have qc: "q \<le> of_int c" by (simp add: c_def)
  have "q \<noteq> of_int c"
  proof
    assume "q = of_int c"
    then have "(of_int n :: rat) = of_int (c * d)" using dr by (simp add: q_def field_simps)
    then have "n = c * d" by (simp only: of_int_eq_iff)
    then show False using nd by simp
  qed
  with qc have "q < of_int c" by simp
  then have "(of_int n :: rat) < of_int (c * d)" using dr by (simp add: q_def pos_divide_less_eq)
  then have "n < c * d" by (simp only: of_int_less_iff)
  then have "n + 1 \<le> c * d" by simp
  then have "(of_int (n + 1) :: rat) \<le> of_int (c * d)" by (simp only: of_int_le_iff)
  then have "q + 1 / of_int d \<le> of_int c" using dr by (simp add: q_def field_simps)
  then have "(q + 1 / of_int d) * of_int N \<le> of_int c * of_int N"
    using Nr by (intro mult_right_mono) simp_all
  then have "q * of_int N + of_int N / of_int d \<le> of_int c * of_int N"
    by (simp add: distrib_right)
  moreover have "1 / 2 < of_int N / (of_int d :: rat)" using dN dr by (simp add: pos_less_divide_eq)
  ultimately have "q * of_int N + 1 / 2 < of_int c * of_int N" by linarith
  then have "q * of_int N + 1 / 2 < of_int (c * N)" by simp
  then have "rne (q * of_int N) < c * N" by (rule rne_less_int)
  then have "(of_int (rne (q * of_int N)) :: rat) < of_int (c * N)" by (simp only: of_int_less_iff)
  then have "round_pos q < of_int c" using Nr by (simp add: rp pos_divide_less_eq)
  then show ?thesis by (simp only: q_def c_def)
qed

lemma round_pos_above_floor:
  assumes n: "0 < n" "n < 2 ^ 53" and d: "0 < d" "d < 2 ^ 53" and nd: "\<not> d dvd n"
  shows "of_int \<lfloor>(of_int n :: rat) / of_int d\<rfloor> < round_pos (of_int n / of_int d)"
proof -
  define q :: rat where "q = of_int n / of_int d"
  define f where "f = \<lfloor>q\<rfloor>"
  have dr: "(0::rat) < of_int d" using d(1) by simp
  from round_pos_scaled [OF n d] obtain N :: int where N0: "0 < N"
    and rp: "round_pos q = of_int (rne (q * of_int N)) / of_int N"
    and dN: "of_int d < 2 * (of_int N :: rat)" unfolding q_def by blast
  have Nr: "(0::rat) < of_int N" using N0 by simp
  have fq: "of_int f \<le> q" by (simp add: f_def)
  have "q \<noteq> of_int f"
  proof
    assume "q = of_int f"
    then have "(of_int n :: rat) = of_int (f * d)" using dr by (simp add: q_def field_simps)
    then have "n = f * d" by (simp only: of_int_eq_iff)
    then show False using nd by simp
  qed
  with fq have "of_int f < q" by simp
  then have "(of_int (f * d) :: rat) < of_int n" using dr by (simp add: q_def pos_less_divide_eq)
  then have "f * d < n" by (simp only: of_int_less_iff)
  then have "f * d + 1 \<le> n" by simp
  then have "(of_int (f * d + 1) :: rat) \<le> of_int n" by (simp only: of_int_le_iff)
  then have "(of_int (f * d + 1) :: rat) / of_int d \<le> of_int n / of_int d"
    using dr by (intro divide_right_mono) simp_all
  moreover have "(of_int (f * d + 1) :: rat) / of_int d = of_int f + 1 / of_int d"
    using dr by (simp add: add_divide_distrib)
  ultimately have "of_int f + 1 / of_int d \<le> q" by (simp only: q_def)
  then have "(of_int f + 1 / of_int d) * of_int N \<le> q * of_int N"
    using Nr by (intro mult_right_mono) simp_all
  then have "of_int f * of_int N + of_int N / of_int d \<le> q * of_int N"
    by (simp add: distrib_right)
  moreover have "1 / 2 < of_int N / (of_int d :: rat)" using dN dr by (simp add: pos_less_divide_eq)
  ultimately have "of_int f * of_int N + 1 / 2 < q * of_int N" by linarith
  then have "of_int (f * N) + 1 / 2 < q * of_int N" by simp
  then have "f * N < rne (q * of_int N)" by (rule rne_greater_int)
  then have "(of_int (f * N) :: rat) < of_int (rne (q * of_int N))" by (simp only: of_int_less_iff)
  then have "of_int f < round_pos q" using Nr by (simp add: rp pos_less_divide_eq)
  then show ?thesis by (simp only: q_def f_def)
qed


section \<open>Facts about the arithmetic of Python numbers\<close>

lemma float_of_int_exact: "\<bar>n\<bar> < 2 ^ 53 \<Longrightarrow> float_of_int n = Inr (Finite (of_int n))"
  by (simp add: float_of_int_def to_double_of_int)

lemma py_truediv_int_bounds:
  assumes "b \<noteq> 0" and "\<bar>(of_int a :: rat) / of_int b\<bar> < 2 ^ 53"
  shows "\<exists>r. py_truediv (PInt a) (PInt b) = Inr (PFloat (Finite r))
           \<and> of_int (a div b) \<le> r \<and> r \<le> of_int (a div b) + 1
           \<and> (b dvd a \<longrightarrow> r = of_int (a div b))"
proof -
  let ?q = "(of_int a :: rat) / of_int b"
  from to_double_bounds [OF assms(2)] obtain r where
    r: "to_double ?q = Finite r" "of_int \<lfloor>?q\<rfloor> \<le> r" "r \<le> of_int \<lceil>?q\<rceil>" by blast
  have fl: "\<lfloor>?q\<rfloor> = a div b" by (rule floor_divide_of_int_eq)
  have "\<lceil>?q\<rceil> \<le> \<lfloor>?q\<rfloor> + 1" by (simp add: ceiling_altdef)
  then have "(of_int \<lceil>?q\<rceil> :: rat) \<le> of_int (\<lfloor>?q\<rfloor> + 1)" by (simp only: of_int_le_iff)
  with r(3) have up: "r \<le> of_int (a div b) + 1" by (simp add: fl)
  have ex: "r = of_int (a div b)" if "b dvd a"
  proof -
    from that obtain k where "a = b * k" by (auto simp: dvd_def)
    with assms(1) have "?q = of_int (a div b)" by simp
    then have "\<lceil>?q\<rceil> = a div b" by simp
    with r(2,3) fl show ?thesis by simp
  qed
  from r(1) r(2) fl up ex assms(1) show ?thesis by simp
qed

lemma py_add_one_bounds:
  assumes "\<bar>x + 1\<bar> < 2 ^ 53"
  shows "\<exists>r. py_add (PFloat (Finite x)) (PInt 1) = Inr (PFloat (Finite r))
           \<and> of_int \<lfloor>x\<rfloor> + 1 \<le> r \<and> r \<le> of_int \<lceil>x\<rceil> + 1"
proof -
  from to_double_bounds [OF assms] obtain r where
    r: "to_double (x + 1) = Finite r" "of_int \<lfloor>x + 1\<rfloor> \<le> r" "r \<le> of_int \<lceil>x + 1\<rceil>" by blast
  have "float_of_int 1 = Inr (Finite 1)" using float_of_int_exact [of 1] by simp
  then have "py_add (PFloat (Finite x)) (PInt 1) = Inr (PFloat (Finite r))"
    using r(1) by (simp add: ebind_def)
  with r(2,3) show ?thesis by simp
qed


text \<open>Evaluating a rounding from a candidate significand.\<close>

lemma to_double_nearI:
  assumes "2 ^ 52 \<le> q * 2 ^ k" and "q * 2 ^ k < 2 ^ 53" and "k \<le> 1074"
    and "\<bar>q * 2 ^ k - of_int m\<bar> < 1 / 2" and "r = of_int m / 2 ^ k"
  shows "to_double q = Finite r"
  using to_double_evalI [OF assms(1-3) rne_eqI [OF assms(4)]] assms(5) by simp

lemma to_double_tieI:
  assumes "2 ^ 52 \<le> q * 2 ^ k" and "q * 2 ^ k < 2 ^ 53" and "k \<le> 1074"
    and "\<bar>q * 2 ^ k - of_int m\<bar> = 1 / 2" and "even m" and "r = of_int m / 2 ^ k"
  shows "to_double q = Finite r"
  using to_double_evalI [OF assms(1-3) rne_tieI [OF assms(4,5)]] assms(6) by simp

lemma to_double_numeral [simp]:
  "numeral n < (2::int) ^ 53 \<Longrightarrow> to_double (numeral n) = Finite (numeral n)"
  using to_double_of_int [of "numeral n"] by simp

lemma to_double_neg_numeral [simp]:
  "numeral n < (2::int) ^ 53 \<Longrightarrow> to_double (- numeral n) = Finite (- numeral n)"
  using to_double_of_int [of "- numeral n"] by simp

lemma to_double_zero [simp]: "to_double 0 = Finite 0"
  using to_double_of_int [of 0] by simp

lemma to_double_one [simp]: "to_double 1 = Finite 1"
  using to_double_of_int [of 1] by simp

lemma float_of_int_numeral [simp]:
  "numeral n < (2::int) ^ 53 \<Longrightarrow> float_of_int (numeral n) = Inr (Finite (numeral n))"
  using float_of_int_exact [of "numeral n"] by simp

lemma float_of_int_one [simp]: "float_of_int 1 = Inr (Finite 1)"
  using float_of_int_exact [of 1] by simp

text \<open>Truncating the quotient of two such integers gives the integer quotient.\<close>

lemma py_int_truediv_small:
  assumes "0 \<le> n" and "n < 2 ^ 53" and "0 < d" and "d < 2 ^ 53"
  shows "ebind (py_truediv (PInt n) (PInt d)) py_int = Inr (n div d)"
proof -
  define q :: rat where "q = of_int n / of_int d"
  have dr: "(0::rat) < of_int d" using assms(3) by simp
  have q0: "0 \<le> q" using assms(1,3) by (simp add: q_def)
  have "(of_int n :: rat) < of_int (2 ^ 53)" using assms(2) by (simp only: of_int_less_iff)
  then have nr: "(of_int n :: rat) < 2 ^ 53" by simp
  have "(1::rat) \<le> of_int d" using assms(3) by simp
  then have "q \<le> of_int n" using assms(1) unfolding q_def
    by (simp add: pos_divide_le_eq mult_le_cancel_left1)
  with nr q0 have q53: "\<bar>q\<bar> < 2 ^ 53" by simp
  have d0: "d \<noteq> 0" using assms(3) by simp
  from py_truediv_int_bounds [OF d0 q53 [unfolded q_def]] obtain r where
    r: "py_truediv (PInt n) (PInt d) = Inr (PFloat (Finite r))"
       "of_int (n div d) \<le> r" "r \<le> of_int (n div d) + 1"
       "d dvd n \<longrightarrow> r = of_int (n div d)" by blast
  have nd0: "0 \<le> n div d" using assms(1,3) by (simp add: pos_imp_zdiv_nonneg_iff)
  then have "(of_int 0 :: rat) \<le> of_int (n div d)" by (simp only: of_int_le_iff)
  with r(2) have r0: "0 \<le> r" by simp
  have "\<lfloor>r\<rfloor> = n div d"
  proof (cases "d dvd n")
    case True
    with r(4) show ?thesis by simp
  next
    case False
    then have "n \<noteq> 0" by auto
    with assms(1) have n0: "0 < n" by simp
    have td: "to_double (of_int n / of_int d) = Finite r"
      using r(1) d0 by (simp split: pyfloat.splits)
    have "r = round_rat q" using to_double_Finite_round [OF td] by (simp add: q_def)
    moreover have "0 < q" using n0 assms(3) by (simp add: q_def)
    ultimately have "r = round_pos q" by (simp add: round_rat_def)
    with round_pos_below_ceiling [OF n0 assms(2) assms(3) assms(4) False]
    have "r < of_int \<lceil>q\<rceil>" by (simp add: q_def)
    have "\<lceil>q\<rceil> \<le> \<lfloor>q\<rfloor> + 1" by (simp add: ceiling_altdef)
    moreover have "\<lfloor>q\<rfloor> = n div d" unfolding q_def by (rule floor_divide_of_int_eq)
    ultimately have "\<lceil>q\<rceil> \<le> n div d + 1" by simp
    then have "(of_int \<lceil>q\<rceil> :: rat) \<le> of_int (n div d + 1)" by (simp only: of_int_le_iff)
    with \<open>r < of_int \<lceil>q\<rceil>\<close> have "r < of_int (n div d) + 1" by simp
    with r(2) show ?thesis by (simp add: floor_eq_iff)
  qed
  with r(1) r0 show ?thesis by (simp add: ebind_def)
qed

text \<open>
  The quotient of two integers is the exact rational quotient rounded once; for a quotient
  of two small integers that is not exact, the float lies strictly between the integer
  quotient and the next integer.
\<close>

lemma py_truediv_int_value:
  assumes "b \<noteq> 0" and "\<bar>(of_int a :: rat) / of_int b\<bar> \<le> 2 ^ 1023"
  shows "py_truediv (PInt a) (PInt b) = Inr (PFloat (Finite (round_rat (of_int a / of_int b))))"
    and "to_double (of_int a / of_int b) = Finite (round_rat (of_int a / of_int b))"
  using assms(1) to_double_finite [OF assms(2)] by simp_all

lemma quotient_strictly_between:
  assumes "0 \<le> n" and "n < 2 ^ 53" and "0 < d" and "d < 2 ^ 53" and "\<not> d dvd n"
  shows "of_int (n div d) < round_rat (of_int n / of_int d)"
    and "round_rat (of_int n / of_int d) < of_int (n div d) + 1"
proof -
  define q :: rat where "q = of_int n / of_int d"
  from assms(5) have "n \<noteq> 0" by auto
  with assms(1) have n0: "0 < n" by simp
  then have q0: "0 < q" using assms(3) by (simp add: q_def)
  then have rr: "round_rat q = round_pos q" by (simp add: round_rat_def)
  have fl: "\<lfloor>q\<rfloor> = n div d" unfolding q_def by (rule floor_divide_of_int_eq)
  from round_pos_above_floor [OF n0 assms(2) assms(3) assms(4) assms(5)]
  show "of_int (n div d) < round_rat (of_int n / of_int d)"
    using rr fl by (simp add: q_def)
  have "\<lceil>q\<rceil> \<le> \<lfloor>q\<rfloor> + 1" by (simp add: ceiling_altdef)
  then have "(of_int \<lceil>q\<rceil> :: rat) \<le> of_int (n div d + 1)" by (simp only: fl of_int_le_iff)
  with round_pos_below_ceiling [OF n0 assms(2) assms(3) assms(4) assms(5)]
  show "round_rat (of_int n / of_int d) < of_int (n div d) + 1"
    using rr by (simp add: q_def)
qed

lemma truediv_float:
  assumes "d \<noteq> 0" and "\<bar>(of_int n :: rat) / of_int d\<bar> \<le> 2 ^ 1023"
  shows "\<exists>x. py_truediv (PInt n) (PInt d) = Inr (PFloat (Finite x))
           \<and> to_double (of_int n / of_int d) = Finite x
           \<and> \<bar>x - of_int n / of_int d\<bar> \<le> \<bar>of_int n / of_int d\<bar> / 2 ^ 53 + 1 / 2 ^ 1075
           \<and> (\<bar>(of_int n :: rat) / of_int d\<bar> < 2 ^ 53 \<longrightarrow>
                 of_int (n div d) \<le> x \<and> x \<le> of_int (n div d) + 1
                 \<and> (d dvd n \<longrightarrow> x = of_int (n div d)))
           \<and> (0 \<le> n \<and> n < 2 ^ 53 \<and> 0 < d \<and> d < 2 ^ 53 \<and> \<not> d dvd n \<longrightarrow>
                 of_int (n div d) < x \<and> x < of_int (n div d) + 1)"
proof -
  define q :: rat where "q = of_int n / of_int d"
  define x where "x = round_rat q"
  have v: "py_truediv (PInt n) (PInt d) = Inr (PFloat (Finite x))"
    and t: "to_double q = Finite x"
    using py_truediv_int_value [OF assms] by (simp_all only: q_def x_def)
  have e: "\<bar>x - q\<bar> \<le> \<bar>q\<bar> / 2 ^ 53 + 1 / 2 ^ 1075"
    unfolding x_def by (rule round_rat_error)
  have b: "of_int (n div d) \<le> x \<and> x \<le> of_int (n div d) + 1 \<and> (d dvd n \<longrightarrow> x = of_int (n div d))"
    if h: "\<bar>q\<bar> < 2 ^ 53"
  proof -
    from py_truediv_int_bounds [OF assms(1) h [unfolded q_def]] obtain r where
      r: "py_truediv (PInt n) (PInt d) = Inr (PFloat (Finite r))"
         "of_int (n div d) \<le> r" "r \<le> of_int (n div d) + 1"
         "d dvd n \<longrightarrow> r = of_int (n div d)" by blast
    from r(1) v have "r = x" by simp
    with r(2-4) show ?thesis by simp
  qed
  have s: "of_int (n div d) < x \<and> x < of_int (n div d) + 1"
    if h: "0 \<le> n \<and> n < 2 ^ 53 \<and> 0 < d \<and> d < 2 ^ 53 \<and> \<not> d dvd n"
  proof -
    from h have h1: "0 \<le> n" and h2: "n < 2 ^ 53" and h3: "0 < d" and h4: "d < 2 ^ 53"
      and h5: "\<not> d dvd n" by simp_all
    from quotient_strictly_between [OF h1 h2 h3 h4 h5] show ?thesis
      by (simp only: x_def q_def)
  qed
  from v t e b s show ?thesis unfolding q_def by blast
qed

section \<open>The single-leg quotes\<close>

lemma quotient_plus_one:
  assumes "d \<noteq> 0" and "\<bar>(of_int n :: rat) / of_int d\<bar> < 2 ^ 52"
  shows "\<exists>x. ebind (py_truediv (PInt n) (PInt d)) (\<lambda>q. py_add q (PInt 1)) = Inr (PFloat (Finite x))
           \<and> of_int (n div d + 1) \<le> x \<and> x \<le> of_int (n div d + 1) + 1
           \<and> (d dvd n \<longrightarrow> x = of_int (n div d + 1))"
proof -
  define q :: rat where "q = of_int n / of_int d"
  have q52: "\<bar>q\<bar> < 2 ^ 52" using assms(2) by (simp only: q_def)
  then have q53: "\<bar>q\<bar> < 2 ^ 53" by simp
  from py_truediv_int_bounds [OF assms(1) q53 [unfolded q_def]] obtain r where
    r: "py_truediv (PInt n) (PInt d) = Inr (PFloat (Finite r))"
       "of_int (n div d) \<le> r" "r \<le> of_int (n div d) + 1"
       "d dvd n \<longrightarrow> r = of_int (n div d)" by blast
  have fl: "\<lfloor>q\<rfloor> = n div d" unfolding q_def by (rule floor_divide_of_int_eq)
  from q52 have "- (2 ^ 52) \<le> q" "q < 2 ^ 52" by linarith+
  then have "- (2 ^ 52) \<le> \<lfloor>q\<rfloor>" "\<lfloor>q\<rfloor> < 2 ^ 52"
    by (simp_all add: le_floor_iff floor_less_iff)
  then have "- (2 ^ 52) \<le> n div d" "n div d < 2 ^ 52" by (simp_all only: fl)
  then have "(of_int (- (2 ^ 52)) :: rat) \<le> of_int (n div d)" "(of_int (n div d) :: rat) < of_int (2 ^ 52)"
    by (simp_all only: of_int_le_iff of_int_less_iff)
  then have "- (2 ^ 52) \<le> (of_int (n div d) :: rat)" "(of_int (n div d) :: rat) < 2 ^ 52" by simp_all
  with r(2,3) have rb: "- (2 ^ 52) \<le> r" "r \<le> 2 ^ 52 + 1" by linarith+
  then have "\<bar>r + 1\<bar> < 2 ^ 53" by simp
  from py_add_one_bounds [OF this] obtain x where
    x: "py_add (PFloat (Finite r)) (PInt 1) = Inr (PFloat (Finite x))"
       "of_int \<lfloor>r\<rfloor> + 1 \<le> x" "x \<le> of_int \<lceil>r\<rceil> + 1" by blast
  have e: "ebind (py_truediv (PInt n) (PInt d)) (\<lambda>q. py_add q (PInt 1)) = Inr (PFloat (Finite x))"
    using r(1) x(1) by (simp add: ebind_def)
  have "n div d \<le> \<lfloor>r\<rfloor>" using r(2) by (simp add: le_floor_iff)
  then have "(of_int (n div d) :: rat) \<le> of_int \<lfloor>r\<rfloor>" by (simp only: of_int_le_iff)
  with x(2) have lo: "of_int (n div d + 1) \<le> x" by simp
  have "\<lceil>r\<rceil> \<le> n div d + 1" using r(3) by (simp add: ceiling_le_iff)
  then have "(of_int \<lceil>r\<rceil> :: rat) \<le> of_int (n div d + 1)" by (simp only: of_int_le_iff)
  with x(3) have hi: "x \<le> of_int (n div d + 1) + 1" by simp
  have ex: "x = of_int (n div d + 1)" if "d dvd n"
  proof -
    from that r(4) have "r = of_int (n div d)" by simp
    with x(2,3) show ?thesis by simp
  qed
  from e lo hi ex show ?thesis by blast
qed

lemma two_roundings:
  "0 \<le> a \<Longrightarrow>
     (a + 1 + (a + 1) / 2 ^ 53 + 1) / 2 ^ 53 + (a + 1) / 2 ^ 53 \<le> (a + 1) / (2::rat) ^ 51"
  by (simp add: field_simps)

lemma quotient_plus_one_float:
  assumes "d \<noteq> 0" and "\<bar>(of_int n :: rat) / of_int d\<bar> \<le> 2 ^ 1022"
  shows "\<exists>x. ebind (py_truediv (PInt n) (PInt d)) (\<lambda>q. py_add q (PInt 1)) = Inr (PFloat (Finite x))
           \<and> fadd (to_double (of_int n / of_int d)) (Finite 1) = Finite x
           \<and> \<bar>x - (of_int n / of_int d + 1)\<bar> \<le> (\<bar>of_int n / of_int d\<bar> + 1) / 2 ^ 51
           \<and> (\<bar>(of_int n :: rat) / of_int d\<bar> < 2 ^ 52 \<longrightarrow>
                 of_int (n div d + 1) \<le> x \<and> x \<le> of_int (n div d + 1) + 1
                 \<and> (d dvd n \<longrightarrow> x = of_int (n div d + 1)))"
proof -
  define q :: rat where "q = of_int n / of_int d"
  define f where "f = round_rat q"
  define x where "x = round_rat (f + 1)"
  have q22: "\<bar>q\<bar> \<le> 2 ^ 1022" using assms(2) by (simp only: q_def)
  then have q23: "\<bar>q\<bar> \<le> 2 ^ 1023" by simp
  have v: "py_truediv (PInt n) (PInt d) = Inr (PFloat (Finite f))"
    and t: "to_double q = Finite f"
    using py_truediv_int_value [OF assms(1) q23 [unfolded q_def]] by (simp_all only: q_def f_def)
  have ef: "\<bar>f - q\<bar> \<le> (\<bar>q\<bar> + 1) / 2 ^ 53" unfolding f_def by (rule round_rat_error_unit)
  then have f1: "\<bar>f + 1\<bar> \<le> \<bar>q\<bar> + 1 + (\<bar>q\<bar> + 1) / 2 ^ 53" by linarith
  have "(2::rat) ^ 1022 + 1 + (2 ^ 1022 + 1) / 2 ^ 53 \<le> 2 ^ 1023" by simp
  moreover have "(\<bar>q\<bar> + 1) / 2 ^ 53 \<le> (2 ^ 1022 + 1) / 2 ^ 53"
    using q22 by (simp add: divide_right_mono)
  ultimately have "\<bar>f + 1\<bar> \<le> 2 ^ 1023" using f1 q22 by linarith
  then have t2: "to_double (f + 1) = Finite x" unfolding x_def by (rule to_double_finite)
  then have a: "fadd (Finite f) (Finite 1) = Finite x" by simp
  then have pa: "py_add (PFloat (Finite f)) (PInt 1) = Inr (PFloat (Finite x))"
    by (simp add: ebind_def)
  have r: "ebind (py_truediv (PInt n) (PInt d)) (\<lambda>q. py_add q (PInt 1)) = Inr (PFloat (Finite x))"
    using v pa by (simp add: ebind_def)
  have ex: "\<bar>x - (f + 1)\<bar> \<le> (\<bar>f + 1\<bar> + 1) / 2 ^ 53" unfolding x_def by (rule round_rat_error_unit)
  have "(\<bar>f + 1\<bar> + 1) / 2 ^ 53 \<le> (\<bar>q\<bar> + 1 + (\<bar>q\<bar> + 1) / 2 ^ 53 + 1) / 2 ^ 53"
    using f1 by (intro divide_right_mono) simp_all
  moreover have "(\<bar>q\<bar> + 1 + (\<bar>q\<bar> + 1) / 2 ^ 53 + 1) / 2 ^ 53 + (\<bar>q\<bar> + 1) / 2 ^ 53
                   \<le> (\<bar>q\<bar> + 1) / 2 ^ 51"
    by (rule two_roundings) simp
  moreover have "\<bar>x - (q + 1)\<bar> \<le> \<bar>x - (f + 1)\<bar> + \<bar>f - q\<bar>" by linarith
  ultimately have acc: "\<bar>x - (q + 1)\<bar> \<le> (\<bar>q\<bar> + 1) / 2 ^ 51" using ex ef by linarith
  have b: "of_int (n div d + 1) \<le> x \<and> x \<le> of_int (n div d + 1) + 1
                 \<and> (d dvd n \<longrightarrow> x = of_int (n div d + 1))"
    if h: "\<bar>q\<bar> < 2 ^ 52"
  proof -
    from quotient_plus_one [OF assms(1) h [unfolded q_def]] obtain y where
      y: "ebind (py_truediv (PInt n) (PInt d)) (\<lambda>q. py_add q (PInt 1)) = Inr (PFloat (Finite y))"
         "of_int (n div d + 1) \<le> y" "y \<le> of_int (n div d + 1) + 1"
         "d dvd n \<longrightarrow> y = of_int (n div d + 1)" by blast
    from y(1) r have "y = x" by simp
    with y(2-4) show ?thesis by simp
  qed
  from r a t acc b show ?thesis unfolding q_def by auto
qed

lemma exact_output_amount_int:
  "exact_output_amount (PInt amountOut) reserveIn reserveOut =
     ebind (py_truediv (PInt (amountOut * reserveIn * 1000)) (PInt ((reserveOut - amountOut) * 997)))
       (\<lambda>q. py_add q (PInt 1))"
  by (simp add: exact_output_amount_def output_quotient_def ebind_def)

lemma exact_output_amount_value:
  assumes "amountOut \<noteq> reserveOut"
    and "\<bar>(of_int (amountOut * reserveIn * 1000) :: rat) / of_int ((reserveOut - amountOut) * 997)\<bar> < 2 ^ 52"
  shows "\<exists>x. exact_output_amount (PInt amountOut) reserveIn reserveOut = Inr (PFloat (Finite x))
           \<and> of_int (spec_exact_output amountOut reserveIn reserveOut) \<le> x
           \<and> x \<le> of_int (spec_exact_output amountOut reserveIn reserveOut) + 1
           \<and> ((reserveOut - amountOut) * 997 dvd amountOut * reserveIn * 1000
                \<longrightarrow> x = of_int (spec_exact_output amountOut reserveIn reserveOut))"
proof -
  have d0: "(reserveOut - amountOut) * 997 \<noteq> 0" using assms(1) by simp
  from quotient_plus_one [OF d0 assms(2)] show ?thesis
    unfolding exact_output_amount_int spec_exact_output_def .
qed

text \<open>
  Claim C1, as amended. For an exact-output single-leg quote with \<open>amountOut < reserveOut\<close>
  and a quotient of at most \<open>2 ^ 1022\<close> in absolute value, the computed input is the float
  \<open>numerator / denominator + 1\<close> of true division: the exact quotient of the two integers
  rounded to binary64, plus one, rounded again. It is not truncated: it differs from the
  exact rational \<open>numerator / denominator + 1\<close> by at most \<open>(|quotient| + 1) / 2 ^ 51\<close>. When
  the quotient is below \<open>2 ^ 52\<close> in absolute value, it lies between the integer
  \<open>floor(amountOut * reserveIn * 1000 / ((reserveOut - amountOut) * 997)) + 1\<close> and that
  integer plus one, and equals the integer when the denominator divides the numerator.
\<close>

theorem exact_output_amount_float:
  assumes "amountOut < reserveOut"
    and "\<bar>(of_int (amountOut * reserveIn * 1000) :: rat) / of_int ((reserveOut - amountOut) * 997)\<bar>
           \<le> 2 ^ 1022"
  shows "\<exists>x. exact_output_amount (PInt amountOut) reserveIn reserveOut = Inr (PFloat (Finite x))
           \<and> fadd (to_double (of_int (amountOut * reserveIn * 1000)
                                / of_int ((reserveOut - amountOut) * 997))) (Finite 1) = Finite x
           \<and> \<bar>x - (of_int (amountOut * reserveIn * 1000) / of_int ((reserveOut - amountOut) * 997) + 1)\<bar>
                \<le> (\<bar>of_int (amountOut * reserveIn * 1000) / of_int ((reserveOut - amountOut) * 997)\<bar> + 1)
                     / 2 ^ 51
           \<and> (\<bar>(of_int (amountOut * reserveIn * 1000) :: rat) / of_int ((reserveOut - amountOut) * 997)\<bar>
                < 2 ^ 52 \<longrightarrow>
                 of_int (spec_exact_output amountOut reserveIn reserveOut) \<le> x
                 \<and> x \<le> of_int (spec_exact_output amountOut reserveIn reserveOut) + 1
                 \<and> ((reserveOut - amountOut) * 997 dvd amountOut * reserveIn * 1000
                      \<longrightarrow> x = of_int (spec_exact_output amountOut reserveIn reserveOut)))"
proof -
  have d0: "(reserveOut - amountOut) * 997 \<noteq> 0" using assms(1) by simp
  from quotient_plus_one_float [OF d0 assms(2)] show ?thesis
    unfolding exact_output_amount_int spec_exact_output_def .
qed

text \<open>
  Two instances: \<open>amountOut = 1\<close>, \<open>reserveIn = 997\<close>, \<open>reserveOut = 17\<close> with the quotient
  \<open>62.5\<close> and the computed input \<open>63.5\<close>, and an exact division.
\<close>

lemma q_125_2: "to_double (125 / 2) = Finite (125 / 2)"
  by (rule to_double_nearI [where k = 47 and m = "125 * 2 ^ 46"]) simp_all

lemma q_127_2: "to_double (127 / 2) = Finite (127 / 2)"
  by (rule to_double_nearI [where k = 47 and m = "127 * 2 ^ 46"]) simp_all

theorem exact_output_amount_float_witness:
  "(1::int) < 17
     \<and> \<bar>(of_int (1 * 997 * 1000) :: rat) / of_int ((17 - 1) * 997)\<bar> \<le> 2 ^ 1022
     \<and> \<bar>(of_int (1 * 997 * 1000) :: rat) / of_int ((17 - 1) * 997)\<bar> < 2 ^ 52
     \<and> exact_output_amount (PInt 1) 997 17 = Inr (PFloat (Finite (127 / 2)))
     \<and> spec_exact_output 1 997 17 = 63
     \<and> (1000::int) < 2000
     \<and> \<bar>(of_int (1000 * 997 * 1000) :: rat) / of_int ((2000 - 1000) * 997)\<bar> \<le> 2 ^ 1022
     \<and> \<bar>(of_int (1000 * 997 * 1000) :: rat) / of_int ((2000 - 1000) * 997)\<bar> < 2 ^ 52
     \<and> (2000 - 1000) * 997 dvd (1000 * 997 * 1000 :: int)
     \<and> exact_output_amount (PInt 1000) 997 2000
          = Inr (PFloat (Finite (of_int (spec_exact_output 1000 997 2000))))"
proof -
  have a1: "(1::int) < 17" by simp
  have a2: "\<bar>(of_int (1 * 997 * 1000) :: rat) / of_int ((17 - 1) * 997)\<bar> \<le> 2 ^ 1022" by simp
  have a3: "\<bar>(of_int (1 * 997 * 1000) :: rat) / of_int ((17 - 1) * 997)\<bar> < 2 ^ 52" by simp
  have aq: "(of_int (1 * 997 * 1000) :: rat) / of_int ((17 - 1) * 997) = 125 / 2" by simp
  from exact_output_amount_float [OF a1 a2] obtain x where
    x: "exact_output_amount (PInt 1) 997 17 = Inr (PFloat (Finite x))"
       "fadd (to_double (of_int (1 * 997 * 1000) / of_int ((17 - 1) * 997))) (Finite 1) = Finite x"
    by blast
  from x(2) have "x = 127 / 2" by (simp only: aq q_125_2) (simp add: q_127_2)
  with x(1) have a4: "exact_output_amount (PInt 1) 997 17 = Inr (PFloat (Finite (127 / 2)))" by simp
  have a5: "spec_exact_output 1 997 17 = 63" by (simp add: spec_exact_output_def)
  have h1: "(1000::int) < 2000" by simp
  have h2: "\<bar>(of_int (1000 * 997 * 1000) :: rat) / of_int ((2000 - 1000) * 997)\<bar> \<le> 2 ^ 1022" by simp
  have h3: "\<bar>(of_int (1000 * 997 * 1000) :: rat) / of_int ((2000 - 1000) * 997)\<bar> < 2 ^ 52" by simp
  have h4: "(2000 - 1000) * 997 dvd (1000 * 997 * 1000 :: int)" by simp
  from exact_output_amount_float [OF h1 h2] h3 h4 have h5:
    "exact_output_amount (PInt 1000) 997 2000
       = Inr (PFloat (Finite (of_int (spec_exact_output 1000 997 2000))))" by blast
  from a1 a2 a3 a4 a5 h1 h2 h3 h4 h5 show ?thesis by blast
qed

text \<open>
  The claim as stated fails: with \<open>amountOut = 1\<close>, \<open>reserveIn = 997\<close>, \<open>reserveOut = 2001\<close> the
  quotient is \<open>997000 / 1994000 = 0.5\<close> and the computed input is the float \<open>1.5\<close>, where the
  integer formula gives \<open>1\<close>.
\<close>

lemma half: "to_double (1 / 2) = Finite (1 / 2)"
  by (rule to_double_nearI [where k = 53 and m = "2 ^ 52"]) simp_all

lemma three_halves: "to_double (3 / 2) = Finite (3 / 2)"
  by (rule to_double_nearI [where k = 52 and m = "3 * 2 ^ 51"]) simp_all

theorem exact_output_amount_counterexample:
  "exact_output_amount (PInt 1) 997 2001 = Inr (PFloat (Finite (3 / 2)))
     \<and> spec_exact_output 1 997 2001 = 1
     \<and> exact_output_amount (PInt 1) 997 2001
          \<noteq> Inr (PFloat (Finite (of_int (spec_exact_output 1 997 2001))))"
  by (simp add: exact_output_amount_def output_quotient_def ebind_def half three_halves
        spec_exact_output_def)


lemma exact_input_amount_int:
  "exact_input_amount (PInt amountIn) reserveIn reserveOut =
     py_truediv (PInt (amountIn * reserveOut * 997)) (PInt (reserveIn * 1000 + amountIn * 997))"
  by (simp add: exact_input_amount_def ebind_def)

text \<open>
  Claim C2, as amended. For an exact-input single-leg quote with a nonzero denominator and
  a quotient of at most \<open>2 ^ 1023\<close> in absolute value, the computed output is the float
  \<open>numerator / denominator\<close> of true division: the exact quotient of the two integers rounded
  to binary64, within \<open>|quotient| / 2 ^ 53 + 1 / 2 ^ 1075\<close> of it. It is not truncated. When
  the quotient is below \<open>2 ^ 53\<close> in absolute value, it lies between the integer
  \<open>floor(amountIn * reserveOut * 997 / (reserveIn * 1000 + amountIn * 997))\<close> and that
  integer plus one, and equals the integer when the denominator divides the numerator.
  When numerator and denominator are below \<open>2 ^ 53\<close> and the division is not exact, it lies
  strictly between the two, and truncated by \<open>int()\<close> it is that integer.
\<close>

theorem exact_input_amount_float:
  assumes "reserveIn * 1000 + amountIn * 997 \<noteq> 0"
    and "\<bar>(of_int (amountIn * reserveOut * 997) :: rat) / of_int (reserveIn * 1000 + amountIn * 997)\<bar>
           \<le> 2 ^ 1023"
  shows "(\<exists>x. exact_input_amount (PInt amountIn) reserveIn reserveOut = Inr (PFloat (Finite x))
           \<and> to_double (of_int (amountIn * reserveOut * 997) / of_int (reserveIn * 1000 + amountIn * 997))
                = Finite x
           \<and> \<bar>x - of_int (amountIn * reserveOut * 997) / of_int (reserveIn * 1000 + amountIn * 997)\<bar>
                \<le> \<bar>of_int (amountIn * reserveOut * 997) / of_int (reserveIn * 1000 + amountIn * 997)\<bar>
                     / 2 ^ 53 + 1 / 2 ^ 1075
           \<and> (\<bar>(of_int (amountIn * reserveOut * 997) :: rat) / of_int (reserveIn * 1000 + amountIn * 997)\<bar>
                < 2 ^ 53 \<longrightarrow>
                 of_int (spec_exact_input amountIn reserveIn reserveOut) \<le> x
                 \<and> x \<le> of_int (spec_exact_input amountIn reserveIn reserveOut) + 1
                 \<and> (reserveIn * 1000 + amountIn * 997 dvd amountIn * reserveOut * 997
                      \<longrightarrow> x = of_int (spec_exact_input amountIn reserveIn reserveOut)))
           \<and> (0 \<le> amountIn * reserveOut * 997 \<and> amountIn * reserveOut * 997 < 2 ^ 53
                \<and> 0 < reserveIn * 1000 + amountIn * 997 \<and> reserveIn * 1000 + amountIn * 997 < 2 ^ 53
                \<and> \<not> reserveIn * 1000 + amountIn * 997 dvd amountIn * reserveOut * 997 \<longrightarrow>
                 of_int (spec_exact_input amountIn reserveIn reserveOut) < x
                 \<and> x < of_int (spec_exact_input amountIn reserveIn reserveOut) + 1))
       \<and> (0 \<le> amountIn * reserveOut * 997 \<and> amountIn * reserveOut * 997 < 2 ^ 53
            \<and> 0 < reserveIn * 1000 + amountIn * 997 \<and> reserveIn * 1000 + amountIn * 997 < 2 ^ 53
           \<longrightarrow> ebind (exact_input_amount (PInt amountIn) reserveIn reserveOut) py_int
                 = Inr (spec_exact_input amountIn reserveIn reserveOut))"
proof (intro conjI impI)
  show "\<exists>x. exact_input_amount (PInt amountIn) reserveIn reserveOut = Inr (PFloat (Finite x))
           \<and> to_double (of_int (amountIn * reserveOut * 997) / of_int (reserveIn * 1000 + amountIn * 997))
                = Finite x
           \<and> \<bar>x - of_int (amountIn * reserveOut * 997) / of_int (reserveIn * 1000 + amountIn * 997)\<bar>
                \<le> \<bar>of_int (amountIn * reserveOut * 997) / of_int (reserveIn * 1000 + amountIn * 997)\<bar>
                     / 2 ^ 53 + 1 / 2 ^ 1075
           \<and> (\<bar>(of_int (amountIn * reserveOut * 997) :: rat) / of_int (reserveIn * 1000 + amountIn * 997)\<bar>
                < 2 ^ 53 \<longrightarrow>
                 of_int (spec_exact_input amountIn reserveIn reserveOut) \<le> x
                 \<and> x \<le> of_int (spec_exact_input amountIn reserveIn reserveOut) + 1
                 \<and> (reserveIn * 1000 + amountIn * 997 dvd amountIn * reserveOut * 997
                      \<longrightarrow> x = of_int (spec_exact_input amountIn reserveIn reserveOut)))
           \<and> (0 \<le> amountIn * reserveOut * 997 \<and> amountIn * reserveOut * 997 < 2 ^ 53
                \<and> 0 < reserveIn * 1000 + amountIn * 997 \<and> reserveIn * 1000 + amountIn * 997 < 2 ^ 53
                \<and> \<not> reserveIn * 1000 + amountIn * 997 dvd amountIn * reserveOut * 997 \<longrightarrow>
                 of_int (spec_exact_input amountIn reserveIn reserveOut) < x
                 \<and> x < of_int (spec_exact_input amountIn reserveIn reserveOut) + 1)"
    using truediv_float [OF assms]
    unfolding exact_input_amount_int spec_exact_input_def .
next
  assume "0 \<le> amountIn * reserveOut * 997 \<and> amountIn * reserveOut * 997 < 2 ^ 53
            \<and> 0 < reserveIn * 1000 + amountIn * 997 \<and> reserveIn * 1000 + amountIn * 997 < 2 ^ 53"
  then show "ebind (exact_input_amount (PInt amountIn) reserveIn reserveOut) py_int
                 = Inr (spec_exact_input amountIn reserveIn reserveOut)"
    using py_int_truediv_small [of "amountIn * reserveOut * 997" "reserveIn * 1000 + amountIn * 997"]
    unfolding exact_input_amount_int spec_exact_input_def by blast
qed

text \<open>
  Three instances: \<open>amountIn = 1000\<close>, \<open>reserveIn = 997\<close>, \<open>reserveOut = 2001\<close> with the computed
  output \<open>1000.5\<close>, an exact division, and the instance that the specification names, whose
  computed output lies strictly between 1992 and 1993.
\<close>

lemma q_2001_2: "to_double (2001 / 2) = Finite (2001 / 2)"
  by (rule to_double_nearI [where k = 43 and m = "2001 * 2 ^ 42"]) simp_all

theorem exact_input_amount_float_witness:
  "(997::int) * 1000 + 1000 * 997 \<noteq> 0
     \<and> \<bar>(of_int (1000 * 2001 * 997) :: rat) / of_int (997 * 1000 + 1000 * 997)\<bar> \<le> 2 ^ 1023
     \<and> \<bar>(of_int (1000 * 2001 * 997) :: rat) / of_int (997 * 1000 + 1000 * 997)\<bar> < 2 ^ 53
     \<and> ((0::int) \<le> 1000 * 2001 * 997 \<and> (1000 * 2001 * 997 :: int) < 2 ^ 53
          \<and> (0::int) < 997 * 1000 + 1000 * 997 \<and> (997 * 1000 + 1000 * 997 :: int) < 2 ^ 53
          \<and> \<not> 997 * 1000 + 1000 * 997 dvd (1000 * 2001 * 997 :: int))
     \<and> exact_input_amount (PInt 1000) 997 2001 = Inr (PFloat (Finite (2001 / 2)))
     \<and> spec_exact_input 1000 997 2001 = 1000
     \<and> ebind (exact_input_amount (PInt 1000) 997 2001) py_int = Inr (spec_exact_input 1000 997 2001)
     \<and> \<bar>(of_int (1000 * 2000 * 997) :: rat) / of_int (997 * 1000 + 1000 * 997)\<bar> \<le> 2 ^ 1023
     \<and> \<bar>(of_int (1000 * 2000 * 997) :: rat) / of_int (997 * 1000 + 1000 * 997)\<bar> < 2 ^ 53
     \<and> 997 * 1000 + 1000 * 997 dvd (1000 * 2000 * 997 :: int)
     \<and> exact_input_amount (PInt 1000) 997 2000
          = Inr (PFloat (Finite (of_int (spec_exact_input 1000 997 2000))))
     \<and> (1000000::int) * 1000 + 1000 * 997 \<noteq> 0
     \<and> \<bar>(of_int (1000 * 2000000 * 997) :: rat) / of_int (1000000 * 1000 + 1000 * 997)\<bar> \<le> 2 ^ 1023
     \<and> ((0::int) \<le> 1000 * 2000000 * 997 \<and> (1000 * 2000000 * 997 :: int) < 2 ^ 53
          \<and> (0::int) < 1000000 * 1000 + 1000 * 997 \<and> (1000000 * 1000 + 1000 * 997 :: int) < 2 ^ 53
          \<and> \<not> 1000000 * 1000 + 1000 * 997 dvd (1000 * 2000000 * 997 :: int))
     \<and> spec_exact_input 1000 1000000 2000000 = 1992
     \<and> (\<exists>x. exact_input_amount (PInt 1000) 1000000 2000000 = Inr (PFloat (Finite x))
            \<and> 1992 < x \<and> x < 1993)"
proof -
  have a1: "(997::int) * 1000 + 1000 * 997 \<noteq> 0" by simp
  have a2: "\<bar>(of_int (1000 * 2001 * 997) :: rat) / of_int (997 * 1000 + 1000 * 997)\<bar> \<le> 2 ^ 1023" by simp
  have a3: "\<bar>(of_int (1000 * 2001 * 997) :: rat) / of_int (997 * 1000 + 1000 * 997)\<bar> < 2 ^ 53" by simp
  have a4: "(0::int) \<le> 1000 * 2001 * 997 \<and> (1000 * 2001 * 997 :: int) < 2 ^ 53
          \<and> (0::int) < 997 * 1000 + 1000 * 997 \<and> (997 * 1000 + 1000 * 997 :: int) < 2 ^ 53
          \<and> \<not> 997 * 1000 + 1000 * 997 dvd (1000 * 2001 * 997 :: int)" by simp
  have aq: "(of_int (1000 * 2001 * 997) :: rat) / of_int (997 * 1000 + 1000 * 997) = 2001 / 2" by simp
  note t = exact_input_amount_float [OF a1 a2]
  from t obtain x where
    x: "exact_input_amount (PInt 1000) 997 2001 = Inr (PFloat (Finite x))"
       "to_double (of_int (1000 * 2001 * 997) / of_int (997 * 1000 + 1000 * 997)) = Finite x"
    by blast
  from x(2) have "x = 2001 / 2" by (simp only: aq q_2001_2) simp
  with x(1) have a5: "exact_input_amount (PInt 1000) 997 2001 = Inr (PFloat (Finite (2001 / 2)))"
    by simp
  have a6: "spec_exact_input 1000 997 2001 = 1000" by (simp add: spec_exact_input_def)
  from t a4 have a7:
    "ebind (exact_input_amount (PInt 1000) 997 2001) py_int = Inr (spec_exact_input 1000 997 2001)"
    by blast
  have h2: "\<bar>(of_int (1000 * 2000 * 997) :: rat) / of_int (997 * 1000 + 1000 * 997)\<bar> \<le> 2 ^ 1023" by simp
  have h3: "\<bar>(of_int (1000 * 2000 * 997) :: rat) / of_int (997 * 1000 + 1000 * 997)\<bar> < 2 ^ 53" by simp
  have h4: "997 * 1000 + 1000 * 997 dvd (1000 * 2000 * 997 :: int)" by simp
  from exact_input_amount_float [OF a1 h2] h3 h4 have h5:
    "exact_input_amount (PInt 1000) 997 2000
       = Inr (PFloat (Finite (of_int (spec_exact_input 1000 997 2000))))" by blast
  have i1: "(1000000::int) * 1000 + 1000 * 997 \<noteq> 0" by simp
  have i2: "\<bar>(of_int (1000 * 2000000 * 997) :: rat) / of_int (1000000 * 1000 + 1000 * 997)\<bar> \<le> 2 ^ 1023"
    by simp
  have i3: "(0::int) \<le> 1000 * 2000000 * 997 \<and> (1000 * 2000000 * 997 :: int) < 2 ^ 53
          \<and> (0::int) < 1000000 * 1000 + 1000 * 997 \<and> (1000000 * 1000 + 1000 * 997 :: int) < 2 ^ 53
          \<and> \<not> 1000000 * 1000 + 1000 * 997 dvd (1000 * 2000000 * 997 :: int)" by simp
  have i4: "spec_exact_input 1000 1000000 2000000 = 1992" by (simp add: spec_exact_input_def)
  from exact_input_amount_float [OF i1 i2] i3 obtain y where
    y: "exact_input_amount (PInt 1000) 1000000 2000000 = Inr (PFloat (Finite y))"
       "of_int (spec_exact_input 1000 1000000 2000000) < y"
       "y < of_int (spec_exact_input 1000 1000000 2000000) + 1" by blast
  from y(2,3) have "1992 < y" "y < 1993" by (simp_all add: i4)
  with y(1) have i5: "\<exists>x. exact_input_amount (PInt 1000) 1000000 2000000 = Inr (PFloat (Finite x))
            \<and> 1992 < x \<and> x < 1993" by blast
  from a1 a2 a3 a4 a5 a6 a7 h2 h3 h4 h5 i1 i2 i3 i4 i5 show ?thesis by blast
qed

text \<open>
  The claim as stated fails at its own instance: with \<open>reserveIn = 1000000\<close>,
  \<open>reserveOut = 2000000\<close>, \<open>amountIn = 1000\<close> the computed output is the float nearest to
  \<open>1994000000000 / 1000997000\<close>, about \<open>1992.0139\<close>, where the integer formula gives \<open>1992\<close>.
\<close>

lemma claim_instance_quotient:
  "to_double (1994000000000 / 1000997000) = Finite (2190242513998887 / 1099511627776)"
  by (rule to_double_nearI [where k = 42 and m = 8760970055995548]) simp_all

theorem exact_input_amount_counterexample:
  "exact_input_amount (PInt 1000) 1000000 2000000
     = Inr (PFloat (Finite (2190242513998887 / 1099511627776)))
   \<and> spec_exact_input 1000 1000000 2000000 = 1992
   \<and> exact_input_amount (PInt 1000) 1000000 2000000
        \<noteq> Inr (PFloat (Finite (of_int (spec_exact_input 1000 1000000 2000000))))"
  using claim_instance_quotient
  by (simp add: exact_input_amount_int spec_exact_input_def)

text \<open>
  Claim C5, as amended. An exact-output quote that asks for the whole output reserve fails
  with \<open>ZeroDivisionError\<close>. A quote that asks for more than the reserve (reserves
  non-negative, quotient below \<open>2 ^ 52\<close> in absolute value) does not fail: it returns the
  float computed from the negative denominator, a value of at most 1.
\<close>

theorem exact_output_beyond_reserve:
  "exact_output_amount (PInt reserveOut) reserveIn reserveOut = Inl ZeroDivisionError
     \<and> (reserveOut < amountOut \<and> 0 \<le> reserveOut \<and> 0 \<le> reserveIn
          \<and> \<bar>(of_int (amountOut * reserveIn * 1000) :: rat) / of_int ((reserveOut - amountOut) * 997)\<bar> < 2 ^ 52
        \<longrightarrow> (\<exists>x. exact_output_amount (PInt amountOut) reserveIn reserveOut = Inr (PFloat (Finite x))
                  \<and> x \<le> 1))"
proof (intro conjI impI)
  show "exact_output_amount (PInt reserveOut) reserveIn reserveOut = Inl ZeroDivisionError"
    by (simp add: exact_output_amount_int ebind_def)
next
  assume a: "reserveOut < amountOut \<and> 0 \<le> reserveOut \<and> 0 \<le> reserveIn
          \<and> \<bar>(of_int (amountOut * reserveIn * 1000) :: rat) / of_int ((reserveOut - amountOut) * 997)\<bar> < 2 ^ 52"
  let ?n = "amountOut * reserveIn * 1000" and ?d = "(reserveOut - amountOut) * 997"
  from a have ne: "amountOut \<noteq> reserveOut" by simp
  from a have d: "?d < 0" by simp
  from a have n: "0 \<le> ?n" by simp
  from exact_output_amount_value [OF ne] a obtain x where
    x: "exact_output_amount (PInt amountOut) reserveIn reserveOut = Inr (PFloat (Finite x))"
       "x \<le> of_int (spec_exact_output amountOut reserveIn reserveOut) + 1"
       "?d dvd ?n \<longrightarrow> x = of_int (spec_exact_output amountOut reserveIn reserveOut)" by blast
  have s: "spec_exact_output amountOut reserveIn reserveOut = ?n div ?d + 1"
    by (simp add: spec_exact_output_def)
  have le0: "?n div ?d \<le> 0" using n d by (rule div_nonneg_neg_le0)
  have "x \<le> 1"
  proof (cases "?d dvd ?n")
    case True
    with x(3) s have "x = of_int (?n div ?d + 1)" by simp
    moreover have "(of_int (?n div ?d + 1) :: rat) \<le> of_int 1" using le0 by (simp only: of_int_le_iff)
    ultimately show ?thesis by simp
  next
    case False
    then have "?n \<noteq> 0" by auto
    with n have "0 < ?n" by (metis order.not_eq_order_implies_strict)
    with d have "?n div ?d < 0" by (simp only: neg_imp_zdiv_neg_iff)
    then have "?n div ?d + 1 + 1 \<le> 1" by simp
    then have "(of_int (?n div ?d + 1 + 1) :: rat) \<le> of_int 1" by (simp only: of_int_le_iff)
    with x(2) s show ?thesis by simp
  qed
  with x(1) show "\<exists>x. exact_output_amount (PInt amountOut) reserveIn reserveOut = Inr (PFloat (Finite x)) \<and> x \<le> 1"
    by blast
qed

theorem exact_output_beyond_reserve_witness:
  "exact_output_amount (PInt 500) 1 500 = Inl ZeroDivisionError
     \<and> ((1::int) < 2 \<and> (0::int) \<le> 1 \<and> (0::int) \<le> 997
          \<and> \<bar>(of_int (2 * 997 * 1000) :: rat) / of_int ((1 - 2) * 997)\<bar> < 2 ^ 52)
     \<and> (\<exists>x. exact_output_amount (PInt 2) 997 1 = Inr (PFloat (Finite x)) \<and> x \<le> 1)"
proof -
  have h: "(1::int) < 2 \<and> (0::int) \<le> 1 \<and> (0::int) \<le> 997
          \<and> \<bar>(of_int (2 * 997 * 1000) :: rat) / of_int ((1 - 2) * 997)\<bar> < 2 ^ 52" by simp
  from exact_output_beyond_reserve [of 500 1 2] have 1:
    "exact_output_amount (PInt 500) 1 500 = Inl ZeroDivisionError" by blast
  from exact_output_beyond_reserve [of 1 997 2] h have 2:
    "\<exists>x. exact_output_amount (PInt 2) 997 1 = Inr (PFloat (Finite x)) \<and> x \<le> 1" by blast
  from 1 h 2 show ?thesis by blast
qed

text \<open>
  The claim as stated fails: with \<open>reserveOut = 500\<close>, \<open>amountOut = 500\<close> the exception is
  \<open>ZeroDivisionError\<close>, and with \<open>reserveOut = 1\<close>, \<open>amountOut = 2\<close>, \<open>reserveIn = 997\<close> the
  computation returns \<open>- 1999.0\<close> from the denominator \<open>- 997\<close>.
\<close>

theorem exact_output_beyond_reserve_counterexample:
  "exact_output_amount (PInt 500) 1 500 = Inl ZeroDivisionError
     \<and> exact_output_amount (PInt 2) 997 1 = Inr (PFloat (Finite (- 1999)))
     \<and> \<not> isl (exact_output_amount (PInt 2) 997 1)"
  by (simp add: exact_output_amount_int ebind_def)

section \<open>The round trip\<close>

text \<open>Mixed operations on integers below \<open>2 ^ 53\<close> are exact.\<close>

lemma py_mul_float_int_exact:
  assumes "\<bar>n\<bar> < 2 ^ 53" and "\<bar>m * n\<bar> < 2 ^ 53"
  shows "py_mul (PFloat (Finite (of_int m))) (PInt n) = Inr (PFloat (Finite (of_int (m * n))))"
  using float_of_int_exact [OF assms(1)] to_double_of_int [OF assms(2)]
  by (simp add: ebind_def)

lemma py_sub_int_float_exact:
  assumes "\<bar>n\<bar> < 2 ^ 53" and "\<bar>n - m\<bar> < 2 ^ 53"
  shows "py_sub (PInt n) (PFloat (Finite (of_int m))) = Inr (PFloat (Finite (of_int (n - m))))"
  using float_of_int_exact [OF assms(1)] to_double_of_int [OF assms(2)]
  by (simp add: ebind_def fsub_def)

lemma py_add_float_int_exact:
  assumes "\<bar>n\<bar> < 2 ^ 53" and "\<bar>m + n\<bar> < 2 ^ 53"
  shows "py_add (PFloat (Finite (of_int m))) (PInt n) = Inr (PFloat (Finite (of_int (m + n))))"
  using float_of_int_exact [OF assms(1)] to_double_of_int [OF assms(2)]
  by (simp add: ebind_def)

lemma py_truediv_float_exact:
  assumes "d \<noteq> 0" and "\<bar>k\<bar> < 2 ^ 53"
  shows "py_truediv (PFloat (Finite (of_int (d * k)))) (PFloat (Finite (of_int d)))
           = Inr (PFloat (Finite (of_int k)))"
  using assms(1) to_double_of_int [OF assms(2)]
  by (simp add: ebind_def)

lemma py_truediv_int_exact:
  assumes "d \<noteq> 0" and "\<bar>k\<bar> < 2 ^ 53"
  shows "py_truediv (PInt (d * k)) (PInt d) = Inr (PFloat (Finite (of_int k)))"
  using assms(1) to_double_of_int [OF assms(2)]
  by simp

lemma round_trip_exact_value:
  assumes a: "0 < a" and ri: "0 < reserveIn" and ro: "0 < reserveOut"
    and dv: "reserveIn * 1000 + a * 997 dvd a * reserveOut * 997"
    and sm: "a * reserveOut * 997 < 2 ^ 53"
  shows "round_trip a reserveIn reserveOut = Inr (PFloat (Finite (of_int a + 1)))"
proof -
  define d1 where "d1 = reserveIn * 1000 + a * 997"
  define n1 where "n1 = a * reserveOut * 997"
  have d1: "0 < d1" using a ri by (simp add: d1_def)
  have n1: "0 < n1" using a ro by (simp add: n1_def)
  from dv obtain out where out: "n1 = d1 * out" by (auto simp: d1_def n1_def dvd_def)
  with d1 n1 have out0: "0 < out" by (simp add: zero_less_mult_iff)
  have n1s: "n1 < 2 ^ 53" using sm by (simp add: n1_def)
  have "out \<le> d1 * out" using d1 out0 by (simp add: mult_le_cancel_right1)
  with out n1s have outs: "out < 2 ^ 53" by simp
  have key: "out * reserveIn * 1000 = (reserveOut - out) * 997 * a"
    using out by (simp add: d1_def n1_def algebra_simps)
  have lhs0: "0 < out * reserveIn * 1000" using out0 ri by simp
  have g0: "0 < reserveOut - out"
  proof (rule ccontr)
    assume "\<not> 0 < reserveOut - out"
    then have "(reserveOut - out) * 997 \<le> 0" by simp
    then have "(reserveOut - out) * 997 * a \<le> 0" using a by (simp add: mult_le_0_iff)
    with key lhs0 show False by simp
  qed
  have le_n1: "(reserveOut - out) * 997 * a \<le> n1"
  proof -
    have "reserveOut - out \<le> reserveOut" using out0 by simp
    then have "(reserveOut - out) * (997 * a) \<le> reserveOut * (997 * a)"
      using a by (intro mult_right_mono) simp_all
    then show ?thesis by (simp add: n1_def algebra_simps)
  qed
  have num2s: "out * reserveIn * 1000 < 2 ^ 53" using key le_n1 n1s by simp
  have "out * reserveIn \<le> out * reserveIn * 1000" using out0 ri by simp
  with num2s have ors: "out * reserveIn < 2 ^ 53" by simp
  have "reserveIn \<le> out * reserveIn" using out0 ri by (simp add: mult_le_cancel_right1)
  with ors have ris: "reserveIn < 2 ^ 53" by simp
  have "(reserveOut - out) * 997 \<le> (reserveOut - out) * 997 * a"
    using g0 a by (simp add: mult_le_cancel_left1)
  with le_n1 n1s have den2s: "(reserveOut - out) * 997 < 2 ^ 53" by simp
  have "reserveOut \<le> n1" 
  proof -
    have "reserveOut * 1 \<le> reserveOut * (997 * a)" using ro a by (intro mult_left_mono) simp_all
    then show ?thesis by (simp add: n1_def algebra_simps)
  qed
  with n1s have ros: "reserveOut < 2 ^ 53" by simp
  have "a * 997 \<le> n1"
  proof -
    have "(a * 997) * 1 \<le> (a * 997) * reserveOut" using ro a by (intro mult_left_mono) simp_all
    then show ?thesis by (simp add: n1_def algebra_simps)
  qed
  with n1s have a997: "a * 997 < 2 ^ 53" by simp
  then have as: "a + 1 < 2 ^ 53" using a by simp
  have leg1: "exact_input_amount (PInt a) reserveIn reserveOut = Inr (PFloat (Finite (of_int out)))"
    using py_truediv_int_exact [of d1 out] d1 out0 outs out
    by (simp add: exact_input_amount_int d1_def n1_def)
  have m1: "py_mul (PFloat (Finite (of_int out))) (PInt reserveIn)
              = Inr (PFloat (Finite (of_int (out * reserveIn))))"
    using py_mul_float_int_exact [of reserveIn out] ri ris out0 ors by simp
  have m2: "py_mul (PFloat (Finite (of_int (out * reserveIn)))) (PInt 1000)
              = Inr (PFloat (Finite (of_int (out * reserveIn * 1000))))"
    using py_mul_float_int_exact [of 1000 "out * reserveIn"] lhs0 num2s by simp
  have s1: "py_sub (PInt reserveOut) (PFloat (Finite (of_int out)))
              = Inr (PFloat (Finite (of_int (reserveOut - out))))"
    using py_sub_int_float_exact [of reserveOut out] ro ros g0 out0 by simp
  have m3: "py_mul (PFloat (Finite (of_int (reserveOut - out)))) (PInt 997)
              = Inr (PFloat (Finite (of_int ((reserveOut - out) * 997))))"
    using py_mul_float_int_exact [of 997 "reserveOut - out"] g0 den2s by simp
  have dv2: "py_truediv (PFloat (Finite (of_int (out * reserveIn * 1000))))
               (PFloat (Finite (of_int ((reserveOut - out) * 997))))
              = Inr (PFloat (Finite (of_int a)))"
    using py_truediv_float_exact [of "(reserveOut - out) * 997" a] g0 a as
    by (simp only: key) simp
  have p1: "py_add (PFloat (Finite (of_int a))) (PInt 1) = Inr (PFloat (Finite (of_int (a + 1))))"
    using py_add_float_int_exact [of 1 a] a as by simp
  have leg2: "exact_output_amount (PFloat (Finite (of_int out))) reserveIn reserveOut
                = Inr (PFloat (Finite (of_int (a + 1))))"
    by (simp only: exact_output_amount_def output_quotient_def m1 m2 s1 m3 dv2 p1 ebind_def sum.case)
  show ?thesis
    by (simp only: round_trip_def leg1 leg2 ebind_def sum.case) simp
qed


lemma round_trip_int_bound:
  assumes a: "0 \<le> a" and ri: "0 < reserveIn" and ro: "0 < reserveOut"
    and n53: "a * reserveOut * 997 < 2 ^ 53" and d53: "reserveIn * 1000 + a * 997 < 2 ^ 53"
  shows "\<exists>x. round_trip_int a reserveIn reserveOut = Inr (PFloat (Finite x)) \<and> x \<le> of_int a + 1"
proof -
  define n1 where "n1 = a * reserveOut * 997"
  define d1 where "d1 = reserveIn * 1000 + a * 997"
  define out where "out = n1 div d1"
  have n1: "0 \<le> n1" using a ro by (simp add: n1_def)
  have d1: "0 < d1" using a ri by (simp add: d1_def)
  have leg1: "ebind (exact_input_amount (PInt a) reserveIn reserveOut) py_int = Inr out"
    using py_int_truediv_small [OF n1 _ d1] n53 d53
    by (simp add: exact_input_amount_int n1_def d1_def out_def)
  have rt: "round_trip_int a reserveIn reserveOut = exact_output_amount (PInt out) reserveIn reserveOut"
    using leg1 by (auto simp: round_trip_int_def ebind_def split: sum.splits)
  have out0: "0 \<le> out" using n1 d1 by (simp add: out_def pos_imp_zdiv_nonneg_iff)
  have "out * d1 + n1 mod d1 = n1" unfolding out_def by (rule div_mult_mod_eq)
  moreover have "0 \<le> n1 mod d1" using d1 by (rule pos_mod_sign)
  ultimately have od: "out * d1 \<le> n1" by linarith
  have olt: "out < reserveOut"
  proof (rule ccontr)
    assume "\<not> out < reserveOut"
    then have "reserveOut \<le> out" by simp
    then have "reserveOut * d1 \<le> out * d1" using d1 by (intro mult_right_mono) simp_all
    with od have "reserveOut * d1 \<le> n1" by linarith
    then have "reserveOut * (reserveIn * 1000) \<le> 0" by (simp add: n1_def d1_def algebra_simps)
    moreover have "0 < reserveOut * (reserveIn * 1000)" using ri ro by simp
    ultimately show False by simp
  qed
  define n2 where "n2 = out * reserveIn * 1000"
  define d2 where "d2 = (reserveOut - out) * 997"
  have n2: "0 \<le> n2" using out0 ri by (simp add: n2_def)
  have d2: "0 < d2" using olt by (simp add: d2_def)
  have key: "n2 \<le> a * d2" using od by (simp add: n1_def d1_def n2_def d2_def algebra_simps)
  define q2 :: rat where "q2 = of_int n2 / of_int d2"
  have d2r: "(0::rat) < of_int d2" using d2 by simp
  have "(of_int n2 :: rat) \<le> of_int (a * d2)" using key by (simp only: of_int_le_iff)
  then have q2a: "q2 \<le> of_int a" using d2r by (simp add: q2_def pos_divide_le_eq)
  have q20: "0 \<le> q2" using n2 d2 by (simp add: q2_def)
  have "a * 997 \<le> a * reserveOut * 997"
  proof -
    have "a * 997 * 1 \<le> a * 997 * reserveOut" using a ro by (intro mult_left_mono) simp_all
    then show ?thesis by (simp add: algebra_simps)
  qed
  with n53 have "a * 997 < 2 ^ 53" by linarith
  then have "a < 2 ^ 52" by simp
  then have "(of_int a :: rat) < of_int (2 ^ 52)" by (simp only: of_int_less_iff)
  then have "(of_int a :: rat) < 2 ^ 52" by simp
  with q2a q20 have q252: "\<bar>q2\<bar> < 2 ^ 52" by simp
  have ne: "out \<noteq> reserveOut" using olt by simp
  from exact_output_amount_value [OF ne, of reserveIn] q252 obtain x where
    x: "exact_output_amount (PInt out) reserveIn reserveOut = Inr (PFloat (Finite x))"
       "x \<le> of_int (spec_exact_output out reserveIn reserveOut) + 1"
       "d2 dvd n2 \<longrightarrow> x = of_int (spec_exact_output out reserveIn reserveOut)"
    unfolding q2_def n2_def d2_def by blast
  have sp: "spec_exact_output out reserveIn reserveOut = n2 div d2 + 1"
    by (simp add: spec_exact_output_def n2_def d2_def)
  have fl: "\<lfloor>q2\<rfloor> = n2 div d2" unfolding q2_def by (rule floor_divide_of_int_eq)
  have "x \<le> of_int a + 1"
  proof (cases "d2 dvd n2")
    case True
    with x(3) sp have "x = of_int (n2 div d2) + 1" by simp
    moreover have "\<lfloor>q2\<rfloor> \<le> a" using q2a by (simp add: floor_le_iff)
    then have "(of_int (n2 div d2) :: rat) \<le> of_int a" by (simp only: fl of_int_le_iff)
    ultimately show ?thesis by simp
  next
    case False
    have "q2 \<noteq> of_int a"
    proof
      assume "q2 = of_int a"
      then have "(of_int n2 :: rat) = of_int (a * d2)" using d2r by (simp add: q2_def field_simps)
      then have "n2 = a * d2" by (simp only: of_int_eq_iff)
      with False show False by simp
    qed
    with q2a have "q2 < of_int a" by simp
    then have "\<lfloor>q2\<rfloor> < a" by (simp add: floor_less_iff)
    then have "n2 div d2 + 1 \<le> a" by (simp add: fl)
    then have "(of_int (n2 div d2 + 1) :: rat) \<le> of_int a" by (simp only: of_int_le_iff)
    with x(2) sp show ?thesis by simp
  qed
  with x(1) rt show ?thesis by simp
qed

text \<open>
  Claim C8, as amended. For reserves and an exact-input amount \<open>a\<close> with numerator
  \<open>a * reserveOut * 997\<close> and denominator \<open>reserveIn * 1000 + a * 997\<close> below \<open>2 ^ 53\<close>, the
  exact-input quote of \<open>a\<close>, truncated to an integer quantity, followed by the exact-output
  quote of that quantity on the same reserves yields an input of at most \<open>a + 1\<close>. When the
  exact-input division is exact, the round trip yields exactly \<open>a + 1\<close>: one more than \<open>a\<close>.
\<close>

theorem round_trip_at_most_one_more:
  assumes "0 \<le> a" and "0 < reserveIn" and "0 < reserveOut"
    and "a * reserveOut * 997 < 2 ^ 53" and "reserveIn * 1000 + a * 997 < 2 ^ 53"
  shows "(\<exists>x. round_trip_int a reserveIn reserveOut = Inr (PFloat (Finite x)) \<and> x \<le> of_int a + 1)
       \<and> (0 < a \<and> reserveIn * 1000 + a * 997 dvd a * reserveOut * 997
           \<longrightarrow> round_trip a reserveIn reserveOut = Inr (PFloat (Finite (of_int a + 1))))"
  using round_trip_int_bound [OF assms] round_trip_exact_value [of a reserveIn reserveOut] assms
  by blast

theorem round_trip_at_most_one_more_witness:
  "(0::int) \<le> 1000 \<and> (0::int) < 997 \<and> (0::int) < 2000
     \<and> (1000 * 2000 * 997 :: int) < 2 ^ 53 \<and> (997 * 1000 + 1000 * 997 :: int) < 2 ^ 53
     \<and> (\<exists>x. round_trip_int 1000 997 2000 = Inr (PFloat (Finite x)) \<and> x \<le> of_int 1000 + 1)
     \<and> ((0::int) < 1000 \<and> 997 * 1000 + 1000 * 997 dvd (1000 * 2000 * 997 :: int))
     \<and> round_trip 1000 997 2000 = Inr (PFloat (Finite (of_int 1000 + 1)))"
proof -
  have h: "(0::int) \<le> 1000" "(0::int) < 997" "(0::int) < 2000"
    "(1000 * 2000 * 997 :: int) < 2 ^ 53" "(997 * 1000 + 1000 * 997 :: int) < 2 ^ 53" by simp_all
  have e: "(0::int) < 1000 \<and> 997 * 1000 + 1000 * 997 dvd (1000 * 2000 * 997 :: int)" by simp
  note t = round_trip_at_most_one_more [OF h]
  from t have 1: "\<exists>x. round_trip_int 1000 997 2000 = Inr (PFloat (Finite x)) \<and> x \<le> of_int 1000 + 1"
    by blast
  from t e have 2: "round_trip 1000 997 2000 = Inr (PFloat (Finite (of_int 1000 + 1)))" by blast
  from h 1 e 2 show ?thesis by blast
qed

text \<open>
  The claim as stated fails: with \<open>reserveIn = 997\<close>, \<open>reserveOut = 2000\<close>, \<open>a = 1000\<close> the
  proceeds are \<open>1000.0\<close> and the cost of buying them back is \<open>1001.0\<close>, more than \<open>a\<close>, with
  or without the truncation in between.
\<close>

theorem round_trip_counterexample:
  "round_trip 1000 997 2000 = Inr (PFloat (Finite 1001))
     \<and> round_trip_int 1000 997 2000 = Inr (PFloat (Finite 1001))
     \<and> \<not> (1001 :: rat) \<le> of_int 1000"
proof -
  have 1: "round_trip 1000 997 2000 = Inr (PFloat (Finite 1001))"
    using round_trip_exact_value [of 1000 997 2000] by simp
  have 2: "round_trip_int 1000 997 2000 = Inr (PFloat (Finite 1001))"
    by (simp add: round_trip_int_def exact_input_amount_int exact_output_amount_int ebind_def)
  from 1 2 show ?thesis by simp
qed

section \<open>The two-hop exact-output cost\<close>

text \<open>
  The statements of \<open>calculate_max_input_token\<close> are the single-leg cost of the bridging
  leg, the quotient of the second leg on that cost, the subtraction of one (where the
  single-leg cost adds one), and the two truncations.
\<close>

lemma calculate_max_input_token_chain:
  "calculate_max_input_token c input_token qty output_token =
     ebind (exact_output_amount (PInt qty) (get_ex_eth_balance c output_token)
              (get_ex_token_balance c output_token)) (\<lambda>input_amount_b.
     ebind (output_quotient input_amount_b (get_ex_token_balance c input_token)
              (get_ex_eth_balance c input_token)) (\<lambda>qa.
     ebind (py_sub qa (PInt 1)) (\<lambda>input_amount_a.
     ebind (py_int input_amount_a) (\<lambda>r1.
     ebind (py_mul (PFloat float_1_2) input_amount_b) (\<lambda>m.
     ebind (py_int m) (\<lambda>r2. Inr (r1, r2)))))))"
  by (simp add: calculate_max_input_token_def exact_output_amount_def output_quotient_def
        Let_def ebind_def split: sum.splits)

lemma exact_output_amount_is_float:
  "exact_output_amount x ri ro = Inr b \<Longrightarrow> \<exists>f. b = PFloat f"
  by (cases x)
     (auto simp: exact_output_amount_def output_quotient_def ebind_def
           split: sum.splits pynum.splits pyfloat.splits if_splits)

lemma py_int_float_Inr:
  "py_int (PFloat f) = Inr e \<Longrightarrow> \<exists>y. f = Finite y \<and> e = (if 0 \<le> y then \<lfloor>y\<rfloor> else \<lceil>y\<rceil>)"
  by (cases f) auto

text \<open>
  Claim C4, as amended. Whenever the two-hop exact-output calculation returns, the cost
  reported for the bridging leg is \<open>int(1.2 * computedBridgeCost)\<close>: the float product of the
  literal \<open>1.2\<close> and the bridge amount of the single-leg exact-output computation, truncated
  toward zero (not rounded up).
\<close>

theorem bridge_cost_truncated:
  assumes "calculate_max_input_token c input_token qty output_token = Inr (a, e)"
  shows "\<exists>b y. exact_output_amount (PInt qty) (get_ex_eth_balance c output_token)
                  (get_ex_token_balance c output_token) = Inr (PFloat b)
               \<and> fmul float_1_2 b = Finite y
               \<and> e = (if 0 \<le> y then \<lfloor>y\<rfloor> else \<lceil>y\<rceil>)"
proof -
  from assms obtain pb where
    b: "exact_output_amount (PInt qty) (get_ex_eth_balance c output_token)
          (get_ex_token_balance c output_token) = Inr pb"
    and m: "ebind (py_mul (PFloat float_1_2) pb) py_int = Inr e"
    by (auto simp: calculate_max_input_token_chain ebind_def split: sum.splits)
  from exact_output_amount_is_float [OF b] obtain f where f: "pb = PFloat f" by blast
  from m f have "py_int (PFloat (fmul float_1_2 f)) = Inr e" by (simp add: ebind_def)
  from py_int_float_Inr [OF this] b f show ?thesis by blast
qed

text \<open>The fixture, evaluated: the literal \<open>1.2\<close>, its product with \<open>1001.0\<close>, and the pair returned.\<close>

lemma float_1_2_value: "float_1_2 = Finite (5404319552844595 / 4503599627370496)"
  unfolding float_1_2_def
  by (rule to_double_nearI [where k = 52 and m = 5404319552844595]) simp_all

lemma margin_of_1001:
  "to_double (5404319552844595 / 4503599627370496 * 1001) = Finite (5282933469138125 / 4398046511104)"
  by (rule to_double_nearI [where k = 42 and m = 5282933469138125]) simp_all

lemma fixture_two_hop: "calculate_max_input_token fixture ''A'' 1000 ''B'' = Inr (999, 1201)"
  using margin_of_1001
  by (simp add: calculate_max_input_token_chain exact_output_amount_int output_quotient_def
        fixture_def ebind_def fsub_def float_1_2_value floor_eq_iff)

theorem bridge_cost_truncated_witness:
  "calculate_max_input_token fixture ''A'' 1000 ''B'' = Inr (999, 1201)
     \<and> (\<exists>b y. exact_output_amount (PInt 1000) (get_ex_eth_balance fixture ''B'')
                  (get_ex_token_balance fixture ''B'') = Inr (PFloat b)
               \<and> fmul float_1_2 b = Finite y
               \<and> (1201::int) = (if 0 \<le> y then \<lfloor>y\<rfloor> else \<lceil>y\<rceil>))"
  using bridge_cost_truncated [OF fixture_two_hop] fixture_two_hop by blast

text \<open>
  Claim C4 as stated fails on the fixture: the bridge amount is \<open>1001.0\<close> and the reported
  cost of the bridging leg is \<open>int(1201.2) = 1201\<close>, where \<open>ceil(1.2 * 1001)\<close> is \<open>1202\<close>.
\<close>

theorem bridge_cost_counterexample:
  "calculate_max_input_token fixture ''A'' 1000 ''B'' = Inr (999, 1201)
     \<and> exact_output_amount (PInt 1000) (get_ex_eth_balance fixture ''B'')
          (get_ex_token_balance fixture ''B'') = Inr (PFloat (Finite 1001))
     \<and> spec_bridge_margin 1001 = 1202
     \<and> calculate_max_input_token fixture ''A'' 1000 ''B'' \<noteq> Inr (999, spec_bridge_margin 1001)"
  using fixture_two_hop
  by (simp add: exact_output_amount_int fixture_def ebind_def spec_bridge_margin_def ceiling_eq_iff)

text \<open>
  Claim C9. The two-hop exact-output cost is to chain two applications of the single-leg
  exact-output computation, each adding one to its quotient. On the fixture the first leg
  does so and gives the bridge amount \<open>1001.0\<close>; the single-leg computation applied to that
  bridge amount on the reserves of token \<open>A\<close> gives \<open>1001.0\<close>, which is also the result of the
  chain in integer arithmetic. The calculation reports 999: its second leg subtracts one from
  the quotient \<open>1000.0\<close>. Every quotient here is an exact integer, so no rounding takes
  part in the difference.
\<close>

theorem two_hop_second_leg_subtracts_one:
  "calculate_max_input_token fixture ''A'' 1000 ''B'' = Inr (999, 1201)
     \<and> exact_output_amount (PInt 1000) (get_ex_eth_balance fixture ''B'')
          (get_ex_token_balance fixture ''B'') = Inr (PFloat (Finite 1001))
     \<and> output_quotient (PFloat (Finite 1001)) (get_ex_token_balance fixture ''A'')
          (get_ex_eth_balance fixture ''A'') = Inr (PFloat (Finite 1000))
     \<and> exact_output_amount (PFloat (Finite 1001)) (get_ex_token_balance fixture ''A'')
          (get_ex_eth_balance fixture ''A'') = Inr (PFloat (Finite 1001))
     \<and> spec_two_hop_exact_output fixture ''A'' 1000 ''B'' = 1001
     \<and> calculate_max_input_token fixture ''A'' 1000 ''B''
          \<noteq> Inr (spec_two_hop_exact_output fixture ''A'' 1000 ''B'', 1201)"
  using fixture_two_hop
  by (simp add: exact_output_amount_def output_quotient_def fixture_def ebind_def fsub_def
        spec_two_hop_exact_output_def spec_exact_output_def)

section \<open>The balance check of exact-output trades\<close>

text \<open>The literal \<open>0.01\<close>, the sum \<open>1 + 0.01\<close> and the product with 1000, each rounded once.\<close>

lemma float_0_01_value: "float_0_01 = Finite (5764607523034235 / 576460752303423488)"
  unfolding float_0_01_def
  by (rule to_double_nearI [where k = 59 and m = 5764607523034235]) simp_all

lemma one_plus_0_01:
  "to_double (1 + 5764607523034235 / 576460752303423488) = Finite (4548635623644201 / 4503599627370496)"
  by (rule to_double_nearI [where k = 52 and m = 4548635623644201]) simp_all

lemma times_1000:
  "to_double (4548635623644201 / 4503599627370496 * 1000) = Finite 1010"
  by (rule to_double_nearI [where k = 43 and m = 8884053952430080]) simp_all

lemma amount_in_max_example: "amount_in_max (PFloat float_0_01) 1000 = Inr 1010"
  using one_plus_0_01 times_1000
  by (simp add: amount_in_max_def ebind_def float_0_01_value)

lemma amount_in_max_truncates:
  assumes "amount_in_max (PFloat s) cost = Inr limit" and "\<bar>cost\<bar> < 2 ^ 53"
  shows "\<exists>y. fmul (fadd (Finite 1) s) (Finite (of_int cost)) = Finite y
           \<and> limit = (if 0 \<le> y then \<lfloor>y\<rfloor> else \<lceil>y\<rceil>)"
proof -
  from assms(1) have "py_int (PFloat (fmul (fadd (Finite 1) s) (Finite (of_int cost)))) = Inr limit"
    using float_of_int_exact [OF assms(2)] by (simp add: amount_in_max_def ebind_def)
  then show ?thesis by (rule py_int_float_Inr)
qed

lemma wrap_eth_to_token_swap_output_check:
  assumes "amount_in_max slippage cost = Inr limit" and "output_token \<noteq> ETH_ADDRESS"
    and "get_eth_token_output_price self c output_token qty fee = Inr cost"
  shows "wrap_eth_to_token_swap_output self c output_token qty recipient fee slippage =
           (if get_eth_balance c < limit then Inl (InsufficientBalance (get_eth_balance c) limit)
            else eth_to_token_swap_output self c output_token qty recipient fee slippage)"
  using assms by (simp add: wrap_eth_to_token_swap_output_def ebind_def Let_def)

lemma wrap_token_to_eth_swap_output_check:
  assumes "amount_in_max slippage cost = Inr limit" and "input_token \<noteq> ETH_ADDRESS"
    and "get_token_eth_output_price self c input_token qty fee = Inr cost"
  shows "wrap_token_to_eth_swap_output self c input_token qty recipient fee slippage =
           (if get_token_balance c input_token < limit
            then Inl (InsufficientBalance (get_token_balance c input_token) limit)
            else token_to_eth_swap_output self c input_token qty recipient fee slippage)"
  using assms by (simp add: wrap_token_to_eth_swap_output_def ebind_def Let_def)

text \<open>
  Claim C3, as amended. For an exact-output trade the builder computes the limit
  \<open>amountInMax = int((1 + slippage) * cost)\<close>, the float product truncated toward zero, validates
  the balance against that limit (not against the cost) and fails with
  \<open>InsufficientBalance(have, amountInMax)\<close> exactly when the balance is below it; otherwise it
  hands over to the swap method. With slippage \<open>0.01\<close> and cost 1000 the limit is 1010.
\<close>

theorem exact_output_balance_check:
  "amount_in_max (PFloat float_0_01) 1000 = Inr 1010
   \<and> (amount_in_max (PFloat s) k = Inr m \<and> \<bar>k\<bar> < 2 ^ 53
        \<longrightarrow> (\<exists>y. fmul (fadd (Finite 1) s) (Finite (of_int k)) = Finite y
                  \<and> m = (if 0 \<le> y then \<lfloor>y\<rfloor> else \<lceil>y\<rceil>)))
   \<and> (amount_in_max slippage cost = Inr limit \<and> output_token \<noteq> ETH_ADDRESS
        \<and> get_eth_token_output_price self c output_token qty fee = Inr cost
        \<longrightarrow> wrap_eth_to_token_swap_output self c output_token qty recipient fee slippage =
              (if get_eth_balance c < limit then Inl (InsufficientBalance (get_eth_balance c) limit)
               else eth_to_token_swap_output self c output_token qty recipient fee slippage))
   \<and> (amount_in_max slippage' cost' = Inr limit' \<and> input_token \<noteq> ETH_ADDRESS
        \<and> get_token_eth_output_price self' c' input_token qty' fee' = Inr cost'
        \<longrightarrow> wrap_token_to_eth_swap_output self' c' input_token qty' recipient' fee' slippage' =
              (if get_token_balance c' input_token < limit'
               then Inl (InsufficientBalance (get_token_balance c' input_token) limit')
               else token_to_eth_swap_output self' c' input_token qty' recipient' fee' slippage'))"
proof (intro conjI impI)
  show "amount_in_max (PFloat float_0_01) 1000 = Inr 1010" by (rule amount_in_max_example)
next
  assume "amount_in_max (PFloat s) k = Inr m \<and> \<bar>k\<bar> < 2 ^ 53"
  then show "\<exists>y. fmul (fadd (Finite 1) s) (Finite (of_int k)) = Finite y
                  \<and> m = (if 0 \<le> y then \<lfloor>y\<rfloor> else \<lceil>y\<rceil>)"
    using amount_in_max_truncates by blast
next
  assume "amount_in_max slippage cost = Inr limit \<and> output_token \<noteq> ETH_ADDRESS
        \<and> get_eth_token_output_price self c output_token qty fee = Inr cost"
  then show "wrap_eth_to_token_swap_output self c output_token qty recipient fee slippage =
              (if get_eth_balance c < limit then Inl (InsufficientBalance (get_eth_balance c) limit)
               else eth_to_token_swap_output self c output_token qty recipient fee slippage)"
    using wrap_eth_to_token_swap_output_check by blast
next
  assume "amount_in_max slippage' cost' = Inr limit' \<and> input_token \<noteq> ETH_ADDRESS
        \<and> get_token_eth_output_price self' c' input_token qty' fee' = Inr cost'"
  then show "wrap_token_to_eth_swap_output self' c' input_token qty' recipient' fee' slippage' =
              (if get_token_balance c' input_token < limit'
               then Inl (InsufficientBalance (get_token_balance c' input_token) limit')
               else token_to_eth_swap_output self' c' input_token qty' recipient' fee' slippage')"
    using wrap_token_to_eth_swap_output_check by blast
qed

lemma fixture_not_eth: "''B'' \<noteq> ETH_ADDRESS" "''A'' \<noteq> ETH_ADDRESS"
  by (simp_all add: ETH_ADDRESS_def)

lemma fixture_eth_price:
  "get_eth_token_output_price fixture_client c ''B'' qty fee
     = V1_get_eth_token_output_price c ''B'' qty fee"
  by (simp add: fixture_client_def UniswapV1_def)

lemma fixture_quote_eth: "get_eth_token_output_price fixture_client fixture ''B'' 5 TIER_3000 = Inr 1000"
  by (simp add: fixture_client_def UniswapV1_def V1_get_eth_token_output_price_def exchange_def
        fixture_def ebind_def)

lemma fixture_quote_token: "get_token_eth_output_price fixture_client fixture ''A'' 5 TIER_3000 = Inr 1000"
  by (simp add: fixture_client_def UniswapV1_def V1_get_token_eth_output_price_def exchange_def
        fixture_def ebind_def)

lemma fixture_eth_balance: "get_eth_balance fixture = 1010" "get_token_balance fixture ''A'' = 1010"
  by (simp_all add: fixture_def get_token_balance_def ETH_ADDRESS_def)

theorem exact_output_balance_check_witness:
  "amount_in_max (PFloat float_0_01) 1000 = Inr 1010 \<and> \<bar>1000 :: int\<bar> < 2 ^ 53
   \<and> (\<exists>y. fmul (fadd (Finite 1) float_0_01) (Finite (of_int 1000)) = Finite y
            \<and> (1010 :: int) = (if 0 \<le> y then \<lfloor>y\<rfloor> else \<lceil>y\<rceil>))
   \<and> ''B'' \<noteq> ETH_ADDRESS
   \<and> get_eth_token_output_price fixture_client fixture ''B'' 5 TIER_3000 = Inr 1000
   \<and> wrap_eth_to_token_swap_output fixture_client fixture ''B'' 5 None TIER_3000 (PFloat float_0_01)
        = eth_to_token_swap_output fixture_client fixture ''B'' 5 None TIER_3000 (PFloat float_0_01)
   \<and> wrap_eth_to_token_swap_output fixture_client (fixture\<lparr>get_eth_balance := 1009\<rparr>) ''B'' 5 None
        TIER_3000 (PFloat float_0_01) = Inl (InsufficientBalance 1009 1010)
   \<and> ''A'' \<noteq> ETH_ADDRESS
   \<and> get_token_eth_output_price fixture_client fixture ''A'' 5 TIER_3000 = Inr 1000
   \<and> wrap_token_to_eth_swap_output fixture_client fixture ''A'' 5 None TIER_3000 (PFloat float_0_01)
        = token_to_eth_swap_output fixture_client fixture ''A'' 5 None TIER_3000 (PFloat float_0_01)"
proof -
  have a: "amount_in_max (PFloat float_0_01) 1000 = Inr 1010"
    using exact_output_balance_check [where s = NaN and k = 0 and slippage = "PInt 0"
        and slippage' = "PInt 0" and output_token = "''x''" and input_token = "''x''"]
    by blast
  have s: "\<bar>1000 :: int\<bar> < 2 ^ 53" by simp
  have q9: "get_eth_token_output_price fixture_client (fixture\<lparr>get_eth_balance := 1009\<rparr>) ''B'' 5 TIER_3000
              = Inr 1000"
    by (simp add: fixture_client_def UniswapV1_def V1_get_eth_token_output_price_def exchange_def
          fixture_def ebind_def)
  have 1: "\<exists>y. fmul (fadd (Finite 1) float_0_01) (Finite (of_int 1000)) = Finite y
            \<and> (1010 :: int) = (if 0 \<le> y then \<lfloor>y\<rfloor> else \<lceil>y\<rceil>)"
    using exact_output_balance_check [where s = float_0_01 and k = 1000 and m = 1010] a s by blast
  have 2: "wrap_eth_to_token_swap_output fixture_client fixture ''B'' 5 None TIER_3000 (PFloat float_0_01)
        = eth_to_token_swap_output fixture_client fixture ''B'' 5 None TIER_3000 (PFloat float_0_01)"
    using exact_output_balance_check [where slippage = "PFloat float_0_01" and cost = 1000
        and limit = 1010 and output_token = "''B''" and self = fixture_client and c = fixture
        and qty = 5 and fee = TIER_3000 and recipient = None]
      a fixture_not_eth(1) fixture_quote_eth fixture_eth_balance(1) by simp
  have 3: "wrap_eth_to_token_swap_output fixture_client (fixture\<lparr>get_eth_balance := 1009\<rparr>) ''B'' 5 None
        TIER_3000 (PFloat float_0_01) = Inl (InsufficientBalance 1009 1010)"
    using exact_output_balance_check [where slippage = "PFloat float_0_01" and cost = 1000
        and limit = 1010 and output_token = "''B''" and self = fixture_client
        and c = "fixture\<lparr>get_eth_balance := 1009\<rparr>"
        and qty = 5 and fee = TIER_3000 and recipient = None]
      a fixture_not_eth(1) q9 by simp
  have 4: "wrap_token_to_eth_swap_output fixture_client fixture ''A'' 5 None TIER_3000 (PFloat float_0_01)
        = token_to_eth_swap_output fixture_client fixture ''A'' 5 None TIER_3000 (PFloat float_0_01)"
    using exact_output_balance_check [where slippage' = "PFloat float_0_01" and cost' = 1000
        and limit' = 1010 and input_token = "''A''" and self' = fixture_client and c' = fixture
        and qty' = 5 and fee' = TIER_3000 and recipient' = None]
      a fixture_not_eth(2) fixture_quote_token fixture_eth_balance(2) by simp
  from a s 1 fixture_not_eth fixture_quote_eth 2 3 fixture_quote_token 4 show ?thesis by blast
qed

text \<open>
  The claim as stated fails: with slippage \<open>0.01\<close> and a quoted cost of 1000 the limit is 1010
  (which is also \<open>ceil(1.01 * 1000)\<close>), and a balance of 1010 passes the check: the wrapper
  returns the swap instruction, not \<open>InsufficientBalance(1010, 1011)\<close>.
\<close>

theorem exact_output_balance_check_counterexample:
  "amount_in_max (PFloat float_0_01) 1000 = Inr 1010
   \<and> spec_amount_in_max (1 / 100) 1000 = 1010
   \<and> get_eth_balance fixture = 1010
   \<and> get_eth_token_output_price fixture_client fixture ''B'' 5 TIER_3000 = Inr 1000
   \<and> wrap_eth_to_token_swap_output fixture_client fixture ''B'' 5 None TIER_3000 (PFloat float_0_01)
        = Inr \<lparr>contract = ''exchange of B'', function_name = ''ethToTokenSwapOutput'',
               func_params = [PNum 5, PNum 600], tx_value = 1000\<rparr>
   \<and> amount_in_max (PFloat float_0_01) 1000 \<noteq> Inr 1011
   \<and> wrap_eth_to_token_swap_output fixture_client fixture ''B'' 5 None TIER_3000 (PFloat float_0_01)
        \<noteq> Inl (InsufficientBalance 1010 1011)"
proof -
  have "wrap_eth_to_token_swap_output fixture_client fixture ''B'' 5 None TIER_3000 (PFloat float_0_01)
        = eth_to_token_swap_output fixture_client fixture ''B'' 5 None TIER_3000 (PFloat float_0_01)"
    using wrap_eth_to_token_swap_output_check [OF amount_in_max_example fixture_not_eth(1) fixture_quote_eth]
      fixture_eth_balance(1) by simp
  also have "\<dots> = Inr \<lparr>contract = ''exchange of B'', function_name = ''ethToTokenSwapOutput'',
               func_params = [PNum 5, PNum 600], tx_value = 1000\<rparr>"
    by (simp add: fixture_client_def UniswapV1_def V1_eth_to_token_swap_output_def
          V1_get_eth_token_output_price_def exchange_def fixture_def ebind_def deadline_def
          no_recipient_def)
  finally show ?thesis
    using amount_in_max_example fixture_eth_balance(1) fixture_quote_eth
    by (simp add: spec_amount_in_max_def)
qed


section \<open>Equal tokens\<close>

lemma make_trade_same_token:
  assumes "check_approval self c t t = None" and "create fee (client_version self) = Inr tier"
  shows "make_trade self c t t (PInt qty) recipient fee slippage fee_on_transfer
           = Inl InvalidTokenArgument"
  using assms by (simp add: make_trade_def ebind_def Let_def)

lemma make_trade_output_same_token:
  assumes "check_approval self c t t = None" and "create fee (client_version self) = Inr tier"
  shows "make_trade_output self c t t qty recipient fee slippage = Inl InvalidTokenArgument"
  using assms by (simp add: make_trade_output_def ebind_def Let_def)

lemma get_price_input_same_token:
  assumes "create fee (client_version self) = Inr tier"
  shows "get_price_input self c t t qty fee route =
           (if t = ETH_ADDRESS then get_eth_token_input_price self c t qty tier
            else get_token_token_input_price self c t t qty tier route)"
  using assms by (simp add: get_price_input_def ebind_def)

lemma get_price_output_same_token:
  assumes "create fee (client_version self) = Inr tier"
  shows "get_price_output self c t t qty fee route =
           (if t = ETH_ADDRESS then get_eth_token_output_price self c t qty tier
            else get_token_token_output_price self c t t qty tier route)"
  using assms by (simp add: get_price_output_def ebind_def is_same_address_def)

lemma fee_error_first:
  assumes "create fee (client_version self) = Inl err"
  shows "get_price_input self c t0 t1 qty fee route = Inl err"
    and "get_price_output self c t0 t1 qty fee route = Inl err"
    and "check_approval self c t0 t1 = None \<Longrightarrow>
           make_trade self c t0 t1 (PInt qty) recipient fee slippage fee_on_transfer = Inl err"
    and "check_approval self c t0 t1 = None \<Longrightarrow>
           make_trade_output self c t0 t1 qty recipient fee slippage = Inl err"
  using assms
  by (simp_all add: get_price_input_def get_price_output_def make_trade_def make_trade_output_def
        ebind_def)

text \<open>
  Claim C6, as amended. When the approval step passes and the quantity is an integer,
  \<open>make_trade\<close> and \<open>make_trade_output\<close> with equal tokens fail with \<open>InvalidTokenArgument\<close>
  provided \<open>FeeTier.create\<close> accepts the fee-tier argument for the client's version; when it
  rejects the argument, all four operations fail with its error first. The two price
  operations make no same-token check: with equal tokens and an accepted fee tier they
  delegate to the ETH-to-token pricing (token is ETH) or the token-to-token pricing.
\<close>

theorem same_token_rejected_by_trades:
  "(check_approval self c t t = None \<and> create fee (client_version self) = Inr tier
      \<longrightarrow> make_trade self c t t (PInt qty) recipient fee slippage fee_on_transfer
            = Inl InvalidTokenArgument
        \<and> make_trade_output self c t t qty recipient fee slippage = Inl InvalidTokenArgument
        \<and> get_price_input self c t t qty fee route =
            (if t = ETH_ADDRESS then get_eth_token_input_price self c t qty tier
             else get_token_token_input_price self c t t qty tier route)
        \<and> get_price_output self c t t qty fee route =
            (if t = ETH_ADDRESS then get_eth_token_output_price self c t qty tier
             else get_token_token_output_price self c t t qty tier route))
   \<and> (check_approval self c t t = None \<and> create fee (client_version self) = Inl err
      \<longrightarrow> make_trade self c t t (PInt qty) recipient fee slippage fee_on_transfer = Inl err
        \<and> make_trade_output self c t t qty recipient fee slippage = Inl err
        \<and> get_price_input self c t t qty fee route = Inl err
        \<and> get_price_output self c t t qty fee route = Inl err)"
proof -
  have A: "make_trade self c t t (PInt qty) recipient fee slippage fee_on_transfer
            = Inl InvalidTokenArgument
        \<and> make_trade_output self c t t qty recipient fee slippage = Inl InvalidTokenArgument
        \<and> get_price_input self c t t qty fee route =
            (if t = ETH_ADDRESS then get_eth_token_input_price self c t qty tier
             else get_token_token_input_price self c t t qty tier route)
        \<and> get_price_output self c t t qty fee route =
            (if t = ETH_ADDRESS then get_eth_token_output_price self c t qty tier
             else get_token_token_output_price self c t t qty tier route)"
    if h: "check_approval self c t t = None \<and> create fee (client_version self) = Inr tier"
  proof -
    from h have ap: "check_approval self c t t = None"
      and cr: "create fee (client_version self) = Inr tier" by simp_all
    show ?thesis
      using make_trade_same_token [OF ap cr] make_trade_output_same_token [OF ap cr]
        get_price_input_same_token [OF cr] get_price_output_same_token [OF cr]
      by simp
  qed
  have B: "make_trade self c t t (PInt qty) recipient fee slippage fee_on_transfer = Inl err
        \<and> make_trade_output self c t t qty recipient fee slippage = Inl err
        \<and> get_price_input self c t t qty fee route = Inl err
        \<and> get_price_output self c t t qty fee route = Inl err"
    if h: "check_approval self c t t = None \<and> create fee (client_version self) = Inl err"
  proof -
    from h have ap: "check_approval self c t t = None"
      and cr: "create fee (client_version self) = Inl err" by simp_all
    show ?thesis
      using fee_error_first(1,2) [OF cr] fee_error_first(3,4) [OF cr ap]
      by simp
  qed
  from A B show ?thesis by blast
qed

lemma fixture_client_version: "client_version fixture_client = 1"
  by (simp add: fixture_client_def UniswapV1_def)

lemma fixture_client_approval: "check_approval fixture_client c a b = None"
  by (simp add: fixture_client_def UniswapV1_def)

lemma fixture_token_token_price:
  "get_token_token_input_price fixture_client c a b qty tier route = Inl (UnsupportedUniSwapVersion 1)"
  "get_token_token_output_price fixture_client c a b qty tier route = Inl (UnsupportedUniSwapVersion 1)"
  by (simp_all add: fixture_client_def UniswapV1_def V1_get_token_token_input_price_def
        V1_get_token_token_output_price_def)

lemma create_examples:
  "create None 1 = Inr TIER_3000" "create (Some 500) 1 = Inl InvalidFeeTier"
  by (simp_all add: create_def FeeTier_of_value_def)

theorem same_token_rejected_by_trades_witness:
  "check_approval fixture_client fixture ''A'' ''A'' = None
   \<and> create None (client_version fixture_client) = Inr TIER_3000
   \<and> make_trade fixture_client fixture ''A'' ''A'' (PInt 5) None None None False = Inl InvalidTokenArgument
   \<and> make_trade_output fixture_client fixture ''A'' ''A'' 5 None None None = Inl InvalidTokenArgument
   \<and> get_price_input fixture_client fixture ''A'' ''A'' 5 None None = Inl (UnsupportedUniSwapVersion 1)
   \<and> get_price_output fixture_client fixture ''A'' ''A'' 5 None None = Inl (UnsupportedUniSwapVersion 1)
   \<and> create (Some 500) (client_version fixture_client) = Inl InvalidFeeTier
   \<and> make_trade fixture_client fixture ''A'' ''A'' (PInt 5) None (Some 500) None False = Inl InvalidFeeTier
   \<and> make_trade_output fixture_client fixture ''A'' ''A'' 5 None (Some 500) None = Inl InvalidFeeTier
   \<and> get_price_input fixture_client fixture ''A'' ''A'' 5 (Some 500) None = Inl InvalidFeeTier
   \<and> get_price_output fixture_client fixture ''A'' ''A'' 5 (Some 500) None = Inl InvalidFeeTier"
proof -
  have ap: "check_approval fixture_client fixture ''A'' ''A'' = None" by (rule fixture_client_approval)
  have c1: "create None (client_version fixture_client) = Inr TIER_3000"
    by (simp add: fixture_client_version create_examples)
  have c2: "create (Some 500) (client_version fixture_client) = Inl InvalidFeeTier"
    by (simp add: fixture_client_version create_examples)
  note t1 = same_token_rejected_by_trades [where self = fixture_client and c = fixture and t = "''A''"
      and fee = None and tier = TIER_3000 and qty = 5 and recipient = None and slippage = None
      and fee_on_transfer = False and route = None and err = InvalidFeeTier]
  note t2 = same_token_rejected_by_trades [where self = fixture_client and c = fixture and t = "''A''"
      and fee = "Some 500" and tier = TIER_3000 and qty = 5 and recipient = None and slippage = None
      and fee_on_transfer = False and route = None and err = InvalidFeeTier]
  from t1 ap c1 have a:
    "make_trade fixture_client fixture ''A'' ''A'' (PInt 5) None None None False = Inl InvalidTokenArgument"
    "make_trade_output fixture_client fixture ''A'' ''A'' 5 None None None = Inl InvalidTokenArgument"
    "get_price_input fixture_client fixture ''A'' ''A'' 5 None None = Inl (UnsupportedUniSwapVersion 1)"
    "get_price_output fixture_client fixture ''A'' ''A'' 5 None None = Inl (UnsupportedUniSwapVersion 1)"
    by (simp_all add: fixture_not_eth fixture_token_token_price)
  from t2 ap c2 have b:
    "make_trade fixture_client fixture ''A'' ''A'' (PInt 5) None (Some 500) None False = Inl InvalidFeeTier"
    "make_trade_output fixture_client fixture ''A'' ''A'' 5 None (Some 500) None = Inl InvalidFeeTier"
    "get_price_input fixture_client fixture ''A'' ''A'' 5 (Some 500) None = Inl InvalidFeeTier"
    "get_price_output fixture_client fixture ''A'' ''A'' 5 (Some 500) None = Inl InvalidFeeTier"
    by simp_all
  from ap c1 c2 a b show ?thesis by blast
qed

text \<open>
  The claim as stated fails on a version 1 client: the price operations with equal tokens
  raise \<open>UnsupportedUniSwapVersion\<close>, and the trade operations with equal tokens and the fee
  tier 500 raise \<open>InvalidFeeTier\<close>.
\<close>

theorem same_token_counterexample:
  "get_price_input fixture_client fixture ''A'' ''A'' 5 None None = Inl (UnsupportedUniSwapVersion 1)
   \<and> get_price_output fixture_client fixture ''A'' ''A'' 5 None None = Inl (UnsupportedUniSwapVersion 1)
   \<and> make_trade fixture_client fixture ''A'' ''A'' (PInt 5) None (Some 500) None False = Inl InvalidFeeTier
   \<and> make_trade_output fixture_client fixture ''A'' ''A'' 5 None (Some 500) None = Inl InvalidFeeTier
   \<and> get_price_input fixture_client fixture ''A'' ''A'' 5 None None \<noteq> Inl InvalidTokenArgument
   \<and> get_price_output fixture_client fixture ''A'' ''A'' 5 None None \<noteq> Inl InvalidTokenArgument
   \<and> make_trade fixture_client fixture ''A'' ''A'' (PInt 5) None (Some 500) None False
        \<noteq> Inl InvalidTokenArgument
   \<and> make_trade_output fixture_client fixture ''A'' ''A'' 5 None (Some 500) None
        \<noteq> Inl InvalidTokenArgument"
proof -
  have c1: "create None (client_version fixture_client) = Inr TIER_3000"
    by (simp add: fixture_client_version create_examples)
  have c2: "create (Some 500) (client_version fixture_client) = Inl InvalidFeeTier"
    by (simp add: fixture_client_version create_examples)
  show ?thesis
    using get_price_input_same_token [OF c1] get_price_output_same_token [OF c1]
      fee_error_first(3,4) [OF c2 fixture_client_approval]
    by (simp add: fixture_not_eth fixture_token_token_price)
qed

section \<open>Fee tier properties\<close>

text \<open>
  Claim C7. For the protocol versions with a single fee tier (versions 1 and 2),
  \<open>create None version\<close> returns the tier 3000, \<open>create (Some 3000) version\<close> succeeds, and
  \<open>create (Some 500) version\<close> fails with \<open>InvalidFeeTier\<close>; for version 3, which requires an
  explicit tier, \<open>create None 3\<close> fails with \<open>ExplicitFeeTierRequred\<close>.
\<close>

theorem create_single_tier_versions:
  "version = 1 \<or> version = 2 \<Longrightarrow>
     create None version = Inr TIER_3000 \<and> tier_value TIER_3000 = 3000
     \<and> create (Some 3000) version = Inr TIER_3000
     \<and> create (Some 500) version = Inl InvalidFeeTier
     \<and> create None 3 = Inl ExplicitFeeTierRequred"
  by (auto simp: create_def FeeTier_of_value_def)

theorem create_single_tier_versions_witness:
  "((2::int) = 1 \<or> (2::int) = 2)
     \<and> create None 2 = Inr TIER_3000
     \<and> create (Some 3000) 2 = Inr TIER_3000
     \<and> create (Some 500) 2 = Inl InvalidFeeTier
     \<and> create None 3 = Inl ExplicitFeeTierRequred"
  using create_single_tier_versions [of 2] by simp

text \<open>
  Claim C10. \<open>create\<close> treats the explicit value 0 as if no value were supplied: for every
  version, \<open>create (Some 0) version\<close> returns the tier 3000 and does not fail with
  \<open>InvalidFeeTier\<close>; in particular for version 3 it does not fail with
  \<open>ExplicitFeeTierRequred\<close>.
\<close>

theorem create_zero_is_default:
  "create (Some 0) version = Inr TIER_3000
     \<and> create (Some 0) version \<noteq> Inl InvalidFeeTier
     \<and> create (Some 0) 3 \<noteq> Inl ExplicitFeeTierRequred"
  by (simp add: create_def FeeTier_of_value_def)

end
